theory Spec2Isabelle
  imports Main "HOL-Library.Sublist"
begin

section \<open>Strings\<close>

text \<open>
  The helpers of Python's \<open>str\<close> that \<open>third_party/deps.py\<close> uses. A string is a
  list of characters. Line feed and carriage return are written by their codes.
\<close>

definition LF :: char where
  "LF = CHR 0x0A"

definition CR :: char where
  "CR = CHR 0x0D"

text \<open>\<open>sep.join(xs)\<close>\<close>

fun join :: "string \<Rightarrow> string list \<Rightarrow> string" where
  "join sep [] = []"
| "join sep [x] = x"
| "join sep (x # y # ys) = x @ sep @ join sep (y # ys)"

text \<open>\<open>s.split(c)\<close> for a separator of one character: never an empty list.\<close>

fun split_on :: "char \<Rightarrow> string \<Rightarrow> string list" where
  "split_on c [] = [[]]"
| "split_on c (x # xs) =
     (if x = c then [] # split_on c xs
      else (case split_on c xs of [] \<Rightarrow> [[x]] | w # ws \<Rightarrow> (x # w) # ws))"

text \<open>\<open>s.startswith(p)\<close>\<close>

definition startswith :: "string \<Rightarrow> string \<Rightarrow> bool" where
  "startswith s p = (take (length p) s = p)"

text \<open>
  \<open>s.strip()\<close> removes the white space of \<open>str.isspace\<close> at both ends. A
  string holds the bytes of its UTF-8 encoding, so a white-space character is one
  to three bytes: the ASCII ones, U+0085, U+00A0, U+1680, U+2000 to U+200A, U+2028,
  U+2029, U+202F, U+205F and U+3000.
\<close>

definition whitespace :: "string list" where
  "whitespace =
     map (\<lambda>c. [c]) [CHR 0x09, CHR 0x0A, CHR 0x0B, CHR 0x0C, CHR 0x0D,
                    CHR 0x1C, CHR 0x1D, CHR 0x1E, CHR 0x1F, CHR 0x20]
     @ [[CHR 0xC2, CHR 0x85], [CHR 0xC2, CHR 0xA0], [CHR 0xE1, CHR 0x9A, CHR 0x80]]
     @ map (\<lambda>c. [CHR 0xE2, CHR 0x80, c])
         [CHR 0x80, CHR 0x81, CHR 0x82, CHR 0x83, CHR 0x84, CHR 0x85, CHR 0x86, CHR 0x87,
          CHR 0x88, CHR 0x89, CHR 0x8A, CHR 0xA8, CHR 0xA9, CHR 0xAF]
     @ [[CHR 0xE2, CHR 0x81, CHR 0x9F], [CHR 0xE3, CHR 0x80, CHR 0x80]]"

text \<open>Removing, at the front, every leading sequence of bytes that is in \<open>ws\<close>.\<close>

fun strip_leading :: "string list \<Rightarrow> string \<Rightarrow> string" where
  "strip_leading ws [] = []"
| "strip_leading ws (a # s) =
     (if [a] \<in> set ws then strip_leading ws s
      else case s of
        [] \<Rightarrow> a # s
      | b # s2 \<Rightarrow>
          (if [a, b] \<in> set ws then strip_leading ws s2
           else case s2 of
             [] \<Rightarrow> a # s
           | c # s3 \<Rightarrow> if [a, b, c] \<in> set ws then strip_leading ws s3 else a # s))"

definition strip :: "string \<Rightarrow> string" where
  "strip s = rev (strip_leading (map rev whitespace) (rev (strip_leading whitespace s)))"

text \<open>
  Decoding a file as UTF-8, as \<open>open(..., encoding="utf-8")\<close> does when the
  file is read: the well-formed byte sequences of the Unicode standard.
\<close>

definition in_range :: "char \<Rightarrow> nat \<Rightarrow> nat \<Rightarrow> bool" where
  "in_range c lo hi = (lo \<le> of_char c \<and> (of_char c :: nat) \<le> hi)"

fun utf8_valid :: "string \<Rightarrow> bool" where
  "utf8_valid [] = True"
| "utf8_valid (a # s) =
     (if in_range a 0x00 0x7F then utf8_valid s
      else case s of
        [] \<Rightarrow> False
      | b # s2 \<Rightarrow>
          (if in_range a 0xC2 0xDF then in_range b 0x80 0xBF \<and> utf8_valid s2
           else case s2 of
             [] \<Rightarrow> False
           | c # s3 \<Rightarrow>
               (if in_range a 0xE0 0xEF then
                  (if in_range a 0xE0 0xE0 then in_range b 0xA0 0xBF
                   else if in_range a 0xED 0xED then in_range b 0x80 0x9F
                   else in_range b 0x80 0xBF)
                  \<and> in_range c 0x80 0xBF \<and> utf8_valid s3
                else case s3 of
                  [] \<Rightarrow> False
                | d # s4 \<Rightarrow>
                    in_range a 0xF0 0xF4
                    \<and> (if in_range a 0xF0 0xF0 then in_range b 0x90 0xBF
                        else if in_range a 0xF4 0xF4 then in_range b 0x80 0x8F
                        else in_range b 0x80 0xBF)
                    \<and> in_range c 0x80 0xBF \<and> in_range d 0x80 0xBF \<and> utf8_valid s4)))"

text \<open>\<open>s.rstrip("\n")\<close>\<close>

definition rstrip_nl :: "string \<Rightarrow> string" where
  "rstrip_nl s = rev (dropWhile (\<lambda>c. c = LF) (rev s))"

text \<open>
  Reading a file opened in text mode translates \<open>"\r\n"\<close> and \<open>"\r"\<close> to
  \<open>"\n"\<close> (universal newlines).
\<close>

fun translate_newlines :: "string \<Rightarrow> string" where
  "translate_newlines [] = []"
| "translate_newlines [c] = [if c = CR then LF else c]"
| "translate_newlines (c # d # ds) =
     (if c = CR \<and> d = LF then LF # translate_newlines ds
      else if c = CR then LF # translate_newlines (d # ds)
      else c # translate_newlines (d # ds))"

text \<open>
  \<open>f.readlines()\<close> and the iteration \<open>for line in f\<close>: every line keeps its
  line feed, the last line may have none.
\<close>

fun readlines :: "string \<Rightarrow> string list" where
  "readlines [] = []"
| "readlines (c # cs) =
     (if c = LF then [LF] # readlines cs
      else (case readlines cs of [] \<Rightarrow> [[c]] | l # ls \<Rightarrow> (c # l) # ls))"

text \<open>\<open>str(n)\<close> for a natural number.\<close>

definition digit_char :: "nat \<Rightarrow> char" where
  "digit_char d = ''0123456789abcdef'' ! (d mod 16)"

fun str_nat :: "nat \<Rightarrow> string" where
  "str_nat n = (if n < 10 then [digit_char n] else str_nat (n div 10) @ [digit_char (n mod 10)])"

declare str_nat.simps [simp del]

text \<open>
  \<open>hashlib.md5(data).hexdigest()\<close>: the digest itself is a parameter of the
  model (a function from the data to the list of its bytes); its rendering as two
  hexadecimal digits per byte is written out.
\<close>

definition hex_byte :: "nat \<Rightarrow> string" where
  "hex_byte b = [digit_char (b div 16), digit_char b]"

definition hexdigest :: "nat list \<Rightarrow> string" where
  "hexdigest bs = concat (map hex_byte bs)"

section \<open>Paths\<close>

text \<open>
  A \<open>pathlib.Path\<close> is modelled by its \<open>parts\<close>, in the POSIX flavour: the root
  \<open>"/"\<close> (or \<open>"//"\<close>), when present, is the first part; empty segments and
  \<open>"."\<close> segments are dropped when a string is parsed; \<open>".."\<close> is kept.
\<close>

type_synonym path = "string list"

definition path_root :: "string \<Rightarrow> string list" where
  "path_root s =
     (if take 2 s = ''//'' \<and> take 3 s \<noteq> ''///'' then [''//'']
      else if take 1 s = ''/'' then [''/'']
      else [])"

definition Path :: "string \<Rightarrow> path" where
  "Path s = path_root s @ filter (\<lambda>seg. seg \<noteq> [] \<and> seg \<noteq> ''.'') (split_on CHR ''/'' s)"

definition is_absolute :: "path \<Rightarrow> bool" where
  "is_absolute p = (case p of [] \<Rightarrow> False | r # _ \<Rightarrow> r = ''/'' \<or> r = ''//'')"

text \<open>The operator \<open>a / b\<close>: an absolute right operand replaces the left one.\<close>

definition pjoin :: "path \<Rightarrow> path \<Rightarrow> path" where
  "pjoin a b = (if is_absolute b then b else a @ b)"

text \<open>\<open>str(p)\<close>\<close>

definition str_path :: "path \<Rightarrow> string" where
  "str_path p =
     (case p of
        [] \<Rightarrow> ''.''
      | r # rest \<Rightarrow> if r = ''/'' \<or> r = ''//'' then r @ join ''/'' rest else join ''/'' p)"

text \<open>\<open>p.name\<close> and \<open>p.parent\<close>\<close>

definition path_name :: "path \<Rightarrow> string" where
  "path_name p = (if p = [] \<or> (length p = 1 \<and> is_absolute p) then [] else last p)"

definition path_parent :: "path \<Rightarrow> path" where
  "path_parent p = (if length p = 1 \<and> is_absolute p then p else butlast p)"

text \<open>
  \<open>p.relative_to(root)\<close> raises \<open>ValueError\<close> (here \<open>None\<close>) unless the parts of
  \<open>root\<close> are a prefix of the parts of \<open>p\<close>.
\<close>

definition relative_to :: "path \<Rightarrow> path \<Rightarrow> path option" where
  "relative_to p root = (if prefix root p then Some (drop (length root) p) else None)"

section \<open>The file system\<close>

text \<open>
  The file system maps a path to a regular file with its bytes, or to a directory.
  Two different lists of parts are two different files (no symbolic links, no
  resolution of \<open>".."\<close>); the current directory and the root always exist.
\<close>

datatype node = File string | Dir

type_synonym fs = "path \<Rightarrow> node option"

definition is_anchor :: "path \<Rightarrow> bool" where
  "is_anchor p = (p = [] \<or> p = [''/''] \<or> p = [''//''])"

definition path_exists :: "fs \<Rightarrow> path \<Rightarrow> bool" where
  "path_exists f p = (is_anchor p \<or> f p \<noteq> None)"

definition is_dir :: "fs \<Rightarrow> path \<Rightarrow> bool" where
  "is_dir f p = (is_anchor p \<or> f p = Some Dir)"

definition is_file :: "fs \<Rightarrow> path \<Rightarrow> bool" where
  "is_file f p = (\<not> is_anchor p \<and> (case f p of Some (File c) \<Rightarrow> True | _ \<Rightarrow> False))"

text \<open>The proper, non-empty leading parts of a path: the directories above it.\<close>

definition ancestors :: "path \<Rightarrow> path list" where
  "ancestors p = map (\<lambda>k. take k p) [1..<length p]"

section \<open>Exceptions, events and the state\<close>

datatype exn =
    CalledProcessError string
  | OSError string
  | ValueError string
  | IndexError string
  | UnicodeDecodeError string

fun str_exn :: "exn \<Rightarrow> string" where
  "str_exn (CalledProcessError m) = m"
| "str_exn (OSError m) = m"
| "str_exn (ValueError m) = m"
| "str_exn (IndexError m) = m"
| "str_exn (UnicodeDecodeError m) = m"

datatype LogType = Info | Success | Warning | Error

text \<open>
  What a run does to the outside world, in the order it does it: the lines it logs,
  the processes it starts (with the exception \<open>subprocess.run\<close> raised, if any)
  and its operations on the file system.
\<close>

datatype event =
    Log LogType string
  | Subprocess "string list" "path option" "exn option"
  | Mkdir path bool
  | OpenW path
  | WriteLines path "string list"
  | Rmtree path
  | Purge path string
  | Copy2 path path
  | CopyTree path path

record state =
  files :: fs
  trace :: "event list"

text \<open>
  \<open>log(message, log_type)\<close>: every call of the program uses the default level
  \<open>LogLevel.Normal\<close>, which \<open>CURRENT_LOG_LEVEL\<close> never filters, so the line is
  always printed.
\<close>

definition log :: "string \<Rightarrow> LogType \<Rightarrow> state \<Rightarrow> state" where
  "log message log_type s = s\<lparr>trace := trace s @ [Log log_type message]\<rparr>"

definition emit :: "event \<Rightarrow> state \<Rightarrow> state" where
  "emit e s = s\<lparr>trace := trace s @ [e]\<rparr>"

text \<open>The events of a run that starts in \<open>s\<close> and ends in \<open>s'\<close>.\<close>

definition new_events :: "state \<Rightarrow> state \<Rightarrow> event list" where
  "new_events s s' = drop (length (trace s)) (trace s')"

subsection \<open>The environment\<close>

text \<open>
  What the program cannot decide by itself, as parameters of one run:
  \<^item> \<open>git_rev_parse dir\<close>: the outcome of \<open>git -C dir rev-parse HEAD\<close> under
    \<open>subprocess.run(..., check=True)\<close>, its standard output or the exception;
  \<^item> \<open>cmake_run argv cwd f\<close>: the outcome of a CMake process started in \<open>cwd\<close> on
    the file system \<open>f\<close>, the exception raised (if any) and the file system it leaves;
  \<^item> \<open>glob_magic f pattern\<close>: the expansion by \<open>glob.glob(..., recursive=True)\<close> of
    a pattern that contains a wildcard;
  \<^item> \<open>lock_free p\<close>: whether the exclusive lock on \<open>p\<close> can be taken, that is, no
    other process holds it;
  \<^item> \<open>md5 data\<close>: the bytes of the MD5 digest;
  \<^item> \<open>denied\<close>: the regular files that the process is not permitted to open
    for reading.
\<close>

record world =
  git_rev_parse :: "path \<Rightarrow> exn + string"
  cmake_run :: "string list \<Rightarrow> path \<Rightarrow> fs \<Rightarrow> exn option \<times> fs"
  glob_magic :: "fs \<Rightarrow> path \<Rightarrow> path list"
  lock_free :: "path \<Rightarrow> bool"
  md5 :: "string \<Rightarrow> nat list"
  denied :: "path list"

subsection \<open>Operations on the file system\<close>

text \<open>
  \<open>p.mkdir(parents=True, exist_ok=e)\<close>: fails when a directory above \<open>p\<close> is a
  regular file, and when \<open>p\<close> exists already unless \<open>e\<close> holds and \<open>p\<close> is a
  directory.
\<close>

definition mkdir :: "path \<Rightarrow> bool \<Rightarrow> state \<Rightarrow> (exn + unit) \<times> state" where
  "mkdir p exist_ok s =
     (if list_ex (is_file (files s)) (ancestors p) then (Inl (OSError ''NotADirectoryError''), s)
      else if path_exists (files s) p then
        (if exist_ok \<and> is_dir (files s) p then (Inr (), emit (Mkdir p exist_ok) s)
         else (Inl (OSError ''FileExistsError''), s))
      else (Inr (), emit (Mkdir p exist_ok)
              (s\<lparr>files := (\<lambda>q. if q \<noteq> [] \<and> prefix q p \<and> files s q = None then Some Dir
                                else files s q)\<rparr>)))"

text \<open>
  \<open>open(p, "r", encoding="utf-8")\<close> and reading the text: the path must be a
  regular file that the process may open, and its bytes must decode.
\<close>

definition read_text :: "world \<Rightarrow> fs \<Rightarrow> path \<Rightarrow> exn + string" where
  "read_text w f p =
     (if is_anchor p then Inl (OSError ''IsADirectoryError'')
      else case f p of
        None \<Rightarrow> Inl (OSError ''FileNotFoundError'')
      | Some Dir \<Rightarrow> Inl (OSError ''IsADirectoryError'')
      | Some (File c) \<Rightarrow>
          if p \<in> set (denied w) then Inl (OSError ''PermissionError'')
          else if \<not> utf8_valid c then Inl (UnicodeDecodeError ''utf-8'')
          else Inr c)"

text \<open>\<open>open(p, "w")\<close> creates the file or truncates it.\<close>

definition open_w :: "path \<Rightarrow> state \<Rightarrow> (exn + unit) \<times> state" where
  "open_w p s =
     (if is_dir (files s) p then (Inl (OSError ''IsADirectoryError''), s)
      else if \<not> is_dir (files s) (path_parent p) then (Inl (OSError ''FileNotFoundError''), s)
      else (Inr (), emit (OpenW p) (s\<lparr>files := (files s)(p \<mapsto> File [])\<rparr>)))"

text \<open>\<open>with p.open("w") as f: f.writelines(lines)\<close>\<close>

definition write_lines :: "path \<Rightarrow> string list \<Rightarrow> state \<Rightarrow> (exn + unit) \<times> state" where
  "write_lines p lines s =
     (if is_dir (files s) p then (Inl (OSError ''IsADirectoryError''), s)
      else if \<not> is_dir (files s) (path_parent p) then (Inl (OSError ''FileNotFoundError''), s)
      else (Inr (), emit (WriteLines p lines) (s\<lparr>files := (files s)(p \<mapsto> File (concat lines))\<rparr>)))"

text \<open>\<open>shutil.rmtree(p)\<close> removes the directory \<open>p\<close> and everything below it.\<close>

definition rmtree :: "path \<Rightarrow> state \<Rightarrow> (exn + unit) \<times> state" where
  "rmtree p s =
     (if is_anchor p \<or> files s p \<noteq> Some Dir then (Inl (OSError ''rmtree''), s)
      else (Inr (), emit (Rmtree p)
              (s\<lparr>files := (\<lambda>q. if prefix p q then None else files s q)\<rparr>)))"

text \<open>
  \<open>shutil.copy2(src, dst)\<close>: \<open>src\<close> is a regular file that the process may
  read; a \<open>dst\<close> that is a directory receives the file under its own name.
\<close>

definition copy2 :: "world \<Rightarrow> path \<Rightarrow> path \<Rightarrow> state \<Rightarrow> (exn + unit) \<times> state" where
  "copy2 w src dst s =
     (case (if is_anchor src then None else files s src) of
        Some (File c) \<Rightarrow>
          (let target = (if is_dir (files s) dst then dst @ [path_name src] else dst) in
           if src \<in> set (denied w) then (Inl (OSError ''PermissionError''), s)
           else if target = src then (Inl (OSError ''SameFileError''), s)
           else if is_dir (files s) target then (Inl (OSError ''IsADirectoryError''), s)
           else if \<not> is_dir (files s) (path_parent target) then (Inl (OSError ''FileNotFoundError''), s)
           else (Inr (), emit (Copy2 src dst) (s\<lparr>files := (files s)(target \<mapsto> File c)\<rparr>)))
      | _ \<Rightarrow> (Inl (OSError ''copy2''), s))"

text \<open>
  \<open>shutil.copytree(src, dst, dirs_exist_ok=True)\<close>: the directories down to \<open>dst\<close>
  are created, then every entry below \<open>src\<close> is written at the same relative path
  below \<open>dst\<close>, over what was there. The files that the process may not read are
  left out, and \<open>shutil.Error\<close> is raised at the end when there are any.
\<close>

definition copytree :: "world \<Rightarrow> path \<Rightarrow> path \<Rightarrow> state \<Rightarrow> (exn + unit) \<times> state" where
  "copytree w src dst s =
     (if \<not> is_dir (files s) src then (Inl (OSError ''copytree''), s)
      else if list_ex (is_file (files s)) (ancestors dst) \<or> is_file (files s) dst
        then (Inl (OSError ''FileExistsError''), s)
      else
        (let made = (\<lambda>q. if q \<noteq> [] \<and> prefix q dst \<and> files s q = None then Some Dir
                          else files s q);
             blocked = filter (\<lambda>q. prefix src q \<and> is_file (files s) q) (denied w);
             s1 = emit (CopyTree src dst)
                    (s\<lparr>files := (\<lambda>q.
                        if prefix dst q \<and> src @ drop (length dst) q \<notin> set blocked then
                          (case files s (src @ drop (length dst) q) of
                             Some n \<Rightarrow> Some n
                           | None \<Rightarrow> made q)
                        else made q)\<rparr>)
         in if blocked = [] then (Inr (), s1) else (Inl (OSError ''shutil.Error''), s1)))"

section \<open>Configuration, environment and library descriptors\<close>

text \<open>The module's global variables, set once by \<open>main\<close> from the command line.\<close>

record config =
  SOURCES_ROOT :: path
  INSTALL_ROOT :: path
  CACHE_ROOT :: "path option"
  HEADER_SUBDIR :: path
  CMAKE :: string
  CMAKE_GLOBAL_ARGS :: "string list"

text \<open>
  The classes \<open>InstallingLibrary\<close>, \<open>CMakeLibrary\<close> and \<open>ManualLibrary\<close> as one
  record with the class as a tag; a \<open>HeaderLibrary\<close> overrides no method and is a
  \<open>ManualLibrary\<close> built by its own constructor.
\<close>

datatype lib_class = CMakeLibrary | ManualLibrary

record library =
  cls :: lib_class
  lib_name :: string
  source_dir :: path
  install_dir :: path
  source_dir_base :: path
  install_dir_base :: path
  git_hash :: "string option"
  build_dir :: path
  extra_args :: "string list"
  build_hash :: "string option"
  build_debug :: bool
  rules :: "(string \<times> string \<times> string) list"

definition InstallingLibrary_init :: "config \<Rightarrow> lib_class \<Rightarrow> path \<Rightarrow> path \<Rightarrow> library" where
  "InstallingLibrary_init cfg c src_base inst_base =
     \<lparr> cls = c,
       lib_name = path_name src_base,
       source_dir = pjoin (SOURCES_ROOT cfg) src_base,
       install_dir = pjoin (INSTALL_ROOT cfg) inst_base,
       source_dir_base = src_base,
       install_dir_base = inst_base,
       git_hash = None,
       build_dir = [],
       extra_args = [],
       build_hash = None,
       build_debug = False,
       rules = [] \<rparr>"

definition CMakeLibrary_init ::
  "config \<Rightarrow> path \<Rightarrow> path \<Rightarrow> path option \<Rightarrow> string list option \<Rightarrow> bool \<Rightarrow> library" where
  "CMakeLibrary_init cfg src_base inst_base bdir args dbg =
     (InstallingLibrary_init cfg CMakeLibrary src_base inst_base)
       \<lparr> build_dir := (case bdir of None \<Rightarrow> Path ''build'' | Some b \<Rightarrow> b),
         extra_args := (case args of None \<Rightarrow> [] | Some a \<Rightarrow> a),
         build_hash := None,
         build_debug := dbg \<rparr>"

definition ManualLibrary_init ::
  "config \<Rightarrow> path \<Rightarrow> path \<Rightarrow> (string \<times> string \<times> string) list \<Rightarrow> library" where
  "ManualLibrary_init cfg src_base inst_base rs =
     (InstallingLibrary_init cfg ManualLibrary src_base inst_base) \<lparr> rules := rs \<rparr>"

definition HeaderLibrary_init :: "config \<Rightarrow> path \<Rightarrow> path \<Rightarrow> string list \<Rightarrow> library" where
  "HeaderLibrary_init cfg src_base inst_base paths =
     ManualLibrary_init cfg src_base (HEADER_SUBDIR cfg)
       (map (\<lambda>p. (p, str_path inst_base, [])) paths)"

section \<open>The freshness record\<close>

text \<open>\<open>InstallingLibrary.WriteLineAt(path, n, text)\<close>\<close>

definition WriteLineAt ::
  "world \<Rightarrow> path \<Rightarrow> nat \<Rightarrow> string \<Rightarrow> state \<Rightarrow> (exn + unit) \<times> state" where
  "WriteLineAt w p n text s =
     (case mkdir (path_parent p) True s of
        (Inl e, s1) \<Rightarrow> (Inl e, s1)
      | (Inr u, s1) \<Rightarrow>
          (case (if path_exists (files s1) p
                 then map_sum id (\<lambda>c. readlines (translate_newlines c)) (read_text w (files s1) p)
                 else Inr []) of
             Inl e \<Rightarrow> (Inl e, s1)
           | Inr lines \<Rightarrow>
               (let padded = lines @ replicate (n - length lines) [LF];
                    line = rstrip_nl text @ [LF]
                in if n = 0 \<and> padded = [] then (Inl (IndexError ''list assignment index out of range''), s1)
                   else write_lines p
                          (if n = 0 then padded[length padded - 1 := line] else padded[n - 1 := line])
                          s1)))"

text \<open>\<open>InstallingLibrary.ReadLineAt(path, n)\<close>; the lines are counted from 1.\<close>

definition ReadLineAt :: "world \<Rightarrow> path \<Rightarrow> nat \<Rightarrow> state \<Rightarrow> exn + string option" where
  "ReadLineAt w p n s =
     (if \<not> path_exists (files s) p then Inr None
      else case read_text w (files s) p of
        Inl e \<Rightarrow> Inl e
      | Inr c \<Rightarrow>
          (let lines = readlines (translate_newlines c)
           in if 1 \<le> n \<and> n \<le> length lines then Inr (Some (rstrip_nl (lines ! (n - 1))))
              else Inr None))"

text \<open>
  \<open>GetGitHash\<close>: the revision is asked from git once and then kept in the
  descriptor.
\<close>

definition GetGitHash :: "world \<Rightarrow> library \<Rightarrow> state \<Rightarrow> (exn + string) \<times> library \<times> state" where
  "GetGitHash w lib s =
     (case git_hash lib of
        Some h \<Rightarrow> (Inr h, lib, s)
      | None \<Rightarrow>
          (let argv = [''git'', ''-C'', str_path (source_dir lib), ''rev-parse'', ''HEAD'']
           in case git_rev_parse w (source_dir lib) of
                Inl e \<Rightarrow> (Inl e, lib, emit (Subprocess argv None (Some e)) s)
              | Inr out \<Rightarrow>
                  (Inr (strip out), lib\<lparr>git_hash := Some (strip out)\<rparr>,
                   emit (Subprocess argv None None) s)))"

text \<open>
  \<open>CheckGitHash\<close>: only \<open>subprocess.CalledProcessError\<close> is caught; it is logged
  and the answer is \<open>False\<close>. Any other exception leaves the method.
\<close>

definition CheckGitHash ::
  "world \<Rightarrow> library \<Rightarrow> path \<Rightarrow> state \<Rightarrow> (exn + bool) \<times> library \<times> state" where
  "CheckGitHash w lib hash_file s =
     (case GetGitHash w lib s of
        (Inl (CalledProcessError m), lib1, s1) \<Rightarrow>
          (Inr False, lib1,
           log (''Failed to get git hash for '' @ str_path (source_dir lib) @ ''!'' @ [LF]
                @ ''Error: '' @ m) Error s1)
      | (Inl e, lib1, s1) \<Rightarrow> (Inl e, lib1, s1)
      | (Inr h, lib1, s1) \<Rightarrow>
          (case ReadLineAt w hash_file 1 s1 of
             Inl (CalledProcessError m) \<Rightarrow>
               (Inr False, lib1,
                log (''Failed to get git hash for '' @ str_path (source_dir lib) @ ''!'' @ [LF]
                     @ ''Error: '' @ m) Error s1)
           | Inl e \<Rightarrow> (Inl e, lib1, s1)
           | Inr line \<Rightarrow> (Inr (Some h = line), lib1, s1)))"

text \<open>\<open>InstallingLibrary.IsHashRelevant\<close>\<close>

definition IsHashRelevant_base ::
  "world \<Rightarrow> library \<Rightarrow> path \<Rightarrow> state \<Rightarrow> (exn + bool) \<times> library \<times> state" where
  "IsHashRelevant_base w lib hash_file s =
     (if path_exists (files s) hash_file then
        (case CheckGitHash w lib hash_file s of
           (Inl e, lib1, s1) \<Rightarrow> (Inl e, lib1, s1)
         | (Inr b, lib1, s1) \<Rightarrow> (Inr (if b then True else False), lib1, s1))
      else (Inr False, lib, s))"

text \<open>\<open>InstallingLibrary.WriteHash\<close>\<close>

definition WriteHash_base ::
  "world \<Rightarrow> library \<Rightarrow> path \<Rightarrow> state \<Rightarrow> (exn + unit) \<times> library \<times> state" where
  "WriteHash_base w lib hash_file s =
     (case GetGitHash w lib s of
        (Inl e, lib1, s1) \<Rightarrow> (Inl e, lib1, s1)
      | (Inr h, lib1, s1) \<Rightarrow>
          (case WriteLineAt w hash_file 1 h s1 of (r, s2) \<Rightarrow> (r, lib1, s2)))"

text \<open>
  \<open>CMakeLibrary.GetBuildHash\<close>: the MD5 digest, in hexadecimal, of the extra
  arguments joined by \<open>"|"\<close>; computed once and then kept in the descriptor.
\<close>

definition GetBuildHash :: "world \<Rightarrow> library \<Rightarrow> string \<times> library" where
  "GetBuildHash w lib =
     (case build_hash lib of
        Some h \<Rightarrow> (h, lib)
      | None \<Rightarrow>
          (let data_str = join ''|'' (extra_args lib);
               h = hexdigest (md5 w data_str)
           in (h, lib\<lparr>build_hash := Some h\<rparr>)))"

text \<open>\<open>CMakeLibrary.CheckBuildHash\<close>, with the same handler as \<open>CheckGitHash\<close>.\<close>

definition CheckBuildHash ::
  "world \<Rightarrow> library \<Rightarrow> path \<Rightarrow> state \<Rightarrow> (exn + bool) \<times> library \<times> state" where
  "CheckBuildHash w lib hash_file s =
     (case GetBuildHash w lib of
        (h, lib1) \<Rightarrow>
          (case ReadLineAt w hash_file 2 s of
             Inl (CalledProcessError m) \<Rightarrow>
               (Inr False, lib1,
                log (''Failed to get git hash for '' @ str_path (source_dir lib) @ ''!'' @ [LF]
                     @ ''Error: '' @ m) Error s)
           | Inl e \<Rightarrow> (Inl e, lib1, s)
           | Inr line \<Rightarrow> (Inr (Some h = line), lib1, s)))"

text \<open>
  \<open>IsHashRelevant\<close> as the class of the descriptor defines it: a
  \<open>CMakeLibrary\<close> checks the second line as well, after the first.
\<close>

definition IsHashRelevant ::
  "world \<Rightarrow> library \<Rightarrow> path \<Rightarrow> state \<Rightarrow> (exn + bool) \<times> library \<times> state" where
  "IsHashRelevant w lib hash_file s =
     (case cls lib of
        ManualLibrary \<Rightarrow> IsHashRelevant_base w lib hash_file s
      | CMakeLibrary \<Rightarrow>
          (case IsHashRelevant_base w lib hash_file s of
             (Inl e, lib1, s1) \<Rightarrow> (Inl e, lib1, s1)
           | (Inr False, lib1, s1) \<Rightarrow> (Inr False, lib1, s1)
           | (Inr True, lib1, s1) \<Rightarrow> CheckBuildHash w lib1 hash_file s1))"

text \<open>\<open>WriteHash\<close> as the class of the descriptor defines it.\<close>

definition WriteHash ::
  "world \<Rightarrow> library \<Rightarrow> path \<Rightarrow> state \<Rightarrow> (exn + unit) \<times> library \<times> state" where
  "WriteHash w lib hash_file s =
     (case cls lib of
        ManualLibrary \<Rightarrow> WriteHash_base w lib hash_file s
      | CMakeLibrary \<Rightarrow>
          (case WriteHash_base w lib hash_file s of
             (Inl e, lib1, s1) \<Rightarrow> (Inl e, lib1, s1)
           | (Inr u, lib1, s1) \<Rightarrow>
               (case GetBuildHash w lib1 of
                  (h, lib2) \<Rightarrow>
                    (case WriteLineAt w hash_file 2 h s1 of (r, s2) \<Rightarrow> (r, lib2, s2)))))"

text \<open>The path of the record, as \<open>InstallLibrary\<close> computes it.\<close>

definition hash_file_of :: "config \<Rightarrow> library \<Rightarrow> path" where
  "hash_file_of cfg lib =
     pjoin (case CACHE_ROOT cfg of
              Some c \<Rightarrow> pjoin c (install_dir_base lib)
            | None \<Rightarrow> install_dir lib)
           (Path (''hash_'' @ lib_name lib @ ''.txt''))"

section \<open>The rule engine of manual libraries\<close>

text \<open>A path segment with one of the characters \<open>*\<close>, \<open>?\<close>, \<open>[\<close>.\<close>

definition has_wildcard :: "string \<Rightarrow> bool" where
  "has_wildcard part = list_ex (\<lambda>ch. ch \<in> set part) ''*?[''"

text \<open>
  \<open>ManualLibrary._SplitPattern\<close>: the loop over \<open>enumerate(parts)\<close> returns at
  the first part with a wildcard; \<open>i\<close> is the index of the part under inspection.
\<close>

fun split_from :: "string list \<Rightarrow> nat \<Rightarrow> string list \<Rightarrow> path \<times> string" where
  "split_from parts i [] = (parts, [])"
| "split_from parts i (part # rest) =
     (if has_wildcard part then (take i parts, join ''/'' (drop i parts))
      else split_from parts (Suc i) rest)"

definition SplitPattern :: "string \<Rightarrow> path \<times> string" where
  "SplitPattern pattern = (let parts = Path pattern in split_from parts 0 parts)"

text \<open>
  \<open>glob(pattern, recursive=True)\<close>: a pattern without wildcard is matched by
  itself if it exists; the expansion of wildcards is left to the environment.
\<close>

definition glob :: "world \<Rightarrow> fs \<Rightarrow> path \<Rightarrow> path list" where
  "glob w f pattern =
     (if list_ex has_wildcard pattern then glob_magic w f pattern
      else if path_exists f pattern then [pattern]
      else [])"

text \<open>A \<open>for\<close> loop whose body may raise: the first exception ends it.\<close>

fun for_each :: "('a \<Rightarrow> state \<Rightarrow> (exn + unit) \<times> state) \<Rightarrow> 'a list \<Rightarrow> state \<Rightarrow> (exn + unit) \<times> state" where
  "for_each body [] s = (Inr (), s)"
| "for_each body (x # xs) s =
     (case body x s of
        (Inl e, s1) \<Rightarrow> (Inl e, s1)
      | (Inr u, s1) \<Rightarrow> for_each body xs s1)"

text \<open>The body of the loop \<open>for full_path in to_copy\<close>.\<close>

definition copy_match ::
  "world \<Rightarrow> library \<Rightarrow> path \<Rightarrow> string \<Rightarrow> path \<Rightarrow> state \<Rightarrow> (exn + unit) \<times> state" where
  "copy_match w lib glob_root dst_subdir full_path s =
     (case relative_to full_path glob_root of
        None \<Rightarrow>
          (Inr (), log (''Failed to compute relative path for '' @ str_path full_path) Warning s)
      | Some rel_path \<Rightarrow>
          (let target = pjoin (pjoin (install_dir lib) (Path dst_subdir)) rel_path
           in if is_dir (files s) full_path then copytree w full_path target s
              else (case mkdir (path_parent target) True s of
                      (Inl e, s1) \<Rightarrow> (Inl e, s1)
                    | (Inr u, s1) \<Rightarrow> copy2 w full_path target s1)))"

text \<open>
  The paths one rule copies, \<open>matches - exclude_matches\<close>. Python iterates over
  this set in an order of its own; the model takes the order in which the
  environment lists the matches, which is any order.
\<close>

definition exclude_matches :: "world \<Rightarrow> library \<Rightarrow> path \<Rightarrow> string \<Rightarrow> fs \<Rightarrow> path list" where
  "exclude_matches w lib fixed_prefix exclude_pattern f =
     (if exclude_pattern \<noteq> [] then
        (let ex_root = pjoin (pjoin (source_dir lib) fixed_prefix) (Path exclude_pattern)
         in if path_exists f ex_root then glob w f ex_root else [])
      else [])"

definition to_copy :: "world \<Rightarrow> library \<Rightarrow> path \<Rightarrow> string \<Rightarrow> string \<Rightarrow> fs \<Rightarrow> path list" where
  "to_copy w lib fixed_prefix sub_pattern exclude_pattern f =
     (let glob_root = pjoin (source_dir lib) fixed_prefix;
          matches = glob w f (pjoin glob_root (Path sub_pattern));
          excluded = exclude_matches w lib fixed_prefix exclude_pattern f
      in filter (\<lambda>p. p \<notin> set excluded) (remdups matches))"

text \<open>The body of the loop over the rules in \<open>ManualLibrary.BuildAndInstall\<close>.\<close>

definition apply_rule ::
  "world \<Rightarrow> library \<Rightarrow> string \<times> string \<times> string \<Rightarrow> state \<Rightarrow> (exn + unit) \<times> state" where
  "apply_rule w lib rule s =
     (case rule of (pattern, dst_subdir, exclude_pattern) \<Rightarrow>
        (case SplitPattern pattern of (fixed_prefix, sub_pattern) \<Rightarrow>
           (let glob_root = pjoin (source_dir lib) fixed_prefix
            in if \<not> path_exists (files s) glob_root then
                 (Inr (), log (''Pattern base path not found: '' @ str_path glob_root) Warning s)
               else if is_file (files s) glob_root then
                 (let s1 = (if exclude_pattern \<noteq> [] then
                              log (''There is no need in exclude glob '' @ [CHR 0x27] @ exclude_pattern
                                   @ [CHR 0x27] @ '' if you copy path.'' @ [LF]
                                   @ ''Exclude glob excludes files only from glob.'') Warning s
                            else s);
                      target = pjoin (pjoin (install_dir lib) (Path dst_subdir))
                                 (Path (path_name glob_root))
                  in case mkdir (path_parent target) True s1 of
                       (Inl e, s2) \<Rightarrow> (Inl e, s2)
                     | (Inr u, s2) \<Rightarrow> copy2 w glob_root target s2)
               else
                 for_each (copy_match w lib glob_root dst_subdir)
                   (to_copy w lib fixed_prefix sub_pattern exclude_pattern (files s)) s)))"

definition Manual_BuildAndInstall :: "world \<Rightarrow> library \<Rightarrow> state \<Rightarrow> (exn + unit) \<times> state" where
  "Manual_BuildAndInstall w lib s = for_each (apply_rule w lib) (rules lib) s"

section \<open>The CMake orchestrator\<close>

text \<open>
  \<open>CMakeLibrary._AcquireLock\<close>: the directory of the lock file is created, the
  file is opened for writing, and the answer tells whether the lock was taken
  (\<open>True\<close> for the open file, \<open>False\<close> for \<open>None\<close>).
\<close>

definition AcquireLock :: "world \<Rightarrow> path \<Rightarrow> state \<Rightarrow> (exn + bool) \<times> state" where
  "AcquireLock w lock_file s =
     (case mkdir (path_parent lock_file) True s of
        (Inl e, s1) \<Rightarrow> (Inl e, s1)
      | (Inr u, s1) \<Rightarrow>
          (case open_w lock_file s1 of
             (Inl e, s2) \<Rightarrow> (Inl e, s2)
           | (Inr u, s2) \<Rightarrow> (Inr (lock_free w lock_file), s2)))"

text \<open>
  The loop over \<open>build_dir.iterdir()\<close>: every entry of the build directory but
  the lock file is removed, with all below it.
\<close>

definition purge :: "path \<Rightarrow> string \<Rightarrow> state \<Rightarrow> state" where
  "purge d keep s =
     emit (Purge d keep)
       (s\<lparr>files := (\<lambda>q. if strict_prefix d q \<and> take 1 (drop (length d) q) \<noteq> [keep] then None
                         else files s q)\<rparr>)"

text \<open>The build directory tried after \<open>n\<close> failed attempts, \<open>f"{self.build_dir}-{n}"\<close>.\<close>

definition numbered_build_dir :: "library \<Rightarrow> nat \<Rightarrow> path" where
  "numbered_build_dir lib n =
     pjoin (source_dir lib) (Path (str_path (build_dir lib) @ ''-'' @ str_nat n))"

text \<open>
  The loop \<open>while True\<close> that locks a build directory. It ends with an exception
  (then the lock is not held, unless the directory was being emptied) or with the
  locked directory; it runs forever when every directory it tries is locked. The
  result holds the exception, whether the lock is held, and the build directory.
\<close>

partial_function (option) lock_loop ::
  "world \<Rightarrow> library \<Rightarrow> path \<Rightarrow> nat \<Rightarrow> state \<Rightarrow> ((exn option \<times> bool \<times> path) \<times> state) option" where
  "lock_loop w lib bdir n s =
     (case AcquireLock w (pjoin bdir (Path ''.lock'')) s of
        (Inl e, s1) \<Rightarrow> Some ((Some e, False, bdir), s1)
      | (Inr lock, s1) \<Rightarrow>
          if lock then
            Some ((None, True, bdir), purge bdir (path_name (pjoin bdir (Path ''.lock''))) s1)
          else lock_loop w lib (numbered_build_dir lib (Suc n)) (Suc n) s1)"

declare lock_loop.simps [code]

text \<open>\<open>subprocess.run(argv, cwd=cwd, check=True)\<close> for a CMake process.\<close>

definition run_cmake :: "world \<Rightarrow> string list \<Rightarrow> path \<Rightarrow> state \<Rightarrow> (exn + unit) \<times> state" where
  "run_cmake w argv cwd s =
     (case cmake_run w argv cwd (files s) of
        (r, f) \<Rightarrow>
          ((case r of Some e \<Rightarrow> Inl e | None \<Rightarrow> Inr ()),
           emit (Subprocess argv (Some cwd) r) (s\<lparr>files := f\<rparr>)))"

text \<open>
  \<open>CMakeLibrary.IsGeneratorMultiConfig\<close>: the last line \<open>CMAKE_GENERATOR:\<close> of
  \<open>CMakeCache.txt\<close> names the generator. An \<open>OSError\<close> gives \<open>False\<close>; the
  \<open>IndexError\<close> of a line without \<open>=\<close> and the \<open>UnicodeDecodeError\<close> of a
  file that does not decode leave the method.
\<close>

fun scan_generator :: "string list \<Rightarrow> string \<Rightarrow> exn + string" where
  "scan_generator [] generator = Inr generator"
| "scan_generator (line # rest) generator =
     (if startswith line ''CMAKE_GENERATOR:'' then
        (case split_on CHR ''='' line of
           a # b # others \<Rightarrow> scan_generator rest (strip b)
         | _ \<Rightarrow> Inl (IndexError ''list index out of range''))
      else scan_generator rest generator)"

definition IsGeneratorMultiConfig :: "world \<Rightarrow> fs \<Rightarrow> path \<Rightarrow> exn + bool" where
  "IsGeneratorMultiConfig w f bdir =
     (case read_text w f (pjoin bdir (Path ''CMakeCache.txt'')) of
        Inl (OSError m) \<Rightarrow> Inr False
      | Inl e \<Rightarrow> Inl e
      | Inr c \<Rightarrow>
          (case scan_generator (readlines (translate_newlines c)) [] of
             Inl (OSError m) \<Rightarrow> Inr False
           | Inl e \<Rightarrow> Inl e
           | Inr generator \<Rightarrow>
               Inr (startswith generator ''Visual Studio''
                    \<or> generator \<in> set [''Ninja Multi-Config'', ''FASTBuild'', ''Xcode''])))"

text \<open>
  The step \<open>cleanup install folder\<close>: the install directory is removed if it
  exists, and created.
\<close>

definition cleanup_install :: "library \<Rightarrow> state \<Rightarrow> (exn + unit) \<times> state" where
  "cleanup_install lib s =
     (case (if path_exists (files s) (install_dir lib) then rmtree (install_dir lib) s
            else (Inr (), s)) of
        (Inl e, s1) \<Rightarrow> (Inl e, s1)
      | (Inr u, s1) \<Rightarrow> mkdir (install_dir lib) False s1)"

text \<open>
  One turn of the loop \<open>for config in configs\<close>. An exception comes with the value
  of \<open>stage\<close> when it is raised; otherwise the result is the new value of
  \<open>needToCleanupInstall\<close>.
\<close>

definition build_config ::
  "world \<Rightarrow> config \<Rightarrow> library \<Rightarrow> path \<Rightarrow> bool \<Rightarrow> bool \<Rightarrow> string \<Rightarrow> bool \<Rightarrow> state
     \<Rightarrow> ((string \<times> exn) + bool) \<times> state" where
  "build_config w cfg lib bdir isMulti many config needToCleanupInstall s =
     (case (if isMulti then
              (Inr [CMAKE cfg, ''--build'', ''.'', ''--config'', config, ''--parallel''], s)
            else
              (case run_cmake w [CMAKE cfg, ''-DCMAKE_BUILD_TYPE='' @ config, ''..''] bdir s of
                 (Inl e, s1) \<Rightarrow> (Inl (''reconfigure'', e), s1)
               | (Inr u, s1) \<Rightarrow> (Inr [CMAKE cfg, ''--build'', ''.'', ''--parallel''], s1))) of
        (Inl se, s1) \<Rightarrow> (Inl se, s1)
      | (Inr build_cmd, s1) \<Rightarrow>
          (case run_cmake w build_cmd bdir s1 of
             (Inl e, s2) \<Rightarrow> (Inl (''build'', e), s2)
           | (Inr u, s2) \<Rightarrow>
               (let s3 = log (''['' @ lib_name lib @ ''] successfully built''
                              @ (if many then '' in '' @ config @ '' configuration.'' else ''.''))
                           Success s2
                in case (if needToCleanupInstall then cleanup_install lib s3 else (Inr (), s3)) of
                     (Inl e, s4) \<Rightarrow> (Inl (''cleanup install folder'', e), s4)
                   | (Inr u, s4) \<Rightarrow>
                       (case run_cmake w
                               (if isMulti then [CMAKE cfg, ''--install'', ''.'', ''--config'', config]
                                else [CMAKE cfg, ''--install'', ''.'']) bdir s4 of
                          (Inl e, s5) \<Rightarrow> (Inl (''install'', e), s5)
                        | (Inr u, s5) \<Rightarrow> (Inr False, s5)))))"

fun build_configs ::
  "world \<Rightarrow> config \<Rightarrow> library \<Rightarrow> path \<Rightarrow> bool \<Rightarrow> bool \<Rightarrow> string list \<Rightarrow> bool \<Rightarrow> state
     \<Rightarrow> ((string \<times> exn) + unit) \<times> state" where
  "build_configs w cfg lib bdir isMulti many [] needToCleanupInstall s = (Inr (), s)"
| "build_configs w cfg lib bdir isMulti many (config # rest) needToCleanupInstall s =
     (case build_config w cfg lib bdir isMulti many config needToCleanupInstall s of
        (Inl se, s1) \<Rightarrow> (Inl se, s1)
      | (Inr need, s1) \<Rightarrow> build_configs w cfg lib bdir isMulti many rest need s1)"

text \<open>The \<open>try\<close> block from the step \<open>configure\<close> on, in the locked directory.\<close>

definition configure_and_build ::
  "world \<Rightarrow> config \<Rightarrow> library \<Rightarrow> path \<Rightarrow> state \<Rightarrow> ((string \<times> exn) + unit) \<times> state" where
  "configure_and_build w cfg lib bdir s =
     (let cmake_cmd = [CMAKE cfg, ''..'',
                       ''-DCMAKE_INSTALL_PREFIX='' @ str_path (install_dir lib),
                       ''-DCMAKE_PREFIX_PATH='' @ str_path (INSTALL_ROOT cfg)]
                      @ extra_args lib @ CMAKE_GLOBAL_ARGS cfg
                      @ (if build_debug lib then [''-DCMAKE_DEBUG_POSTFIX=d''] else []);
          configs = [''Release''] @ (if build_debug lib then [''Debug''] else [])
      in case run_cmake w cmake_cmd bdir s of
           (Inl e, s1) \<Rightarrow> (Inl (''configure'', e), s1)
         | (Inr u, s1) \<Rightarrow>
             (case IsGeneratorMultiConfig w (files s1) bdir of
                Inl e \<Rightarrow> (Inl (''configure'', e), s1)
              | Inr isMulti \<Rightarrow>
                  build_configs w cfg lib bdir isMulti (1 < length configs) configs True s1))"

text \<open>
  \<open>CMakeLibrary.BuildAndInstall\<close>. The handler \<open>except Exception\<close> logs the stage
  and raises again; the \<open>finally\<close> block removes the build directory, and an
  exception of its own replaces the one in flight. Closing the lock file changes
  nothing in the model. The result is \<open>None\<close> when the lock loop never ends.
\<close>

definition CMake_BuildAndInstall ::
  "world \<Rightarrow> config \<Rightarrow> library \<Rightarrow> state \<Rightarrow> ((exn + unit) \<times> state) option" where
  "CMake_BuildAndInstall w cfg lib s =
     (case lock_loop w lib (pjoin (source_dir lib) (build_dir lib)) 0
             (log (''Compiling ['' @ lib_name lib @ '']...'') Info s) of
        None \<Rightarrow> None
      | Some ((raised, lock, bdir), s1) \<Rightarrow>
          (case (case raised of
                   Some e \<Rightarrow> (Inl (''acquire lock file'', e), s1)
                 | None \<Rightarrow> configure_and_build w cfg lib bdir s1) of
             (Inl (stage, e), s2) \<Rightarrow>
               (case rmtree bdir (log (''Failed to '' @ stage @ ''!'') Error s2) of
                  (Inl e', s3) \<Rightarrow> Some (Inl e', s3)
                | (Inr u, s3) \<Rightarrow> Some (Inl e, s3))
           | (Inr u, s2) \<Rightarrow>
               (case rmtree bdir s2 of
                  (Inl e', s3) \<Rightarrow> Some (Inl e', s3)
                | (Inr u, s3) \<Rightarrow> Some (Inr (), s3))))"

section \<open>The life cycle of a library\<close>

text \<open>\<open>BuildAndInstall\<close> as the class of the descriptor defines it.\<close>

definition BuildAndInstall ::
  "world \<Rightarrow> config \<Rightarrow> library \<Rightarrow> state \<Rightarrow> ((exn + unit) \<times> state) option" where
  "BuildAndInstall w cfg lib s =
     (case cls lib of
        CMakeLibrary \<Rightarrow> CMake_BuildAndInstall w cfg lib s
      | ManualLibrary \<Rightarrow> Some (Manual_BuildAndInstall w lib s))"

text \<open>\<open>InstallingLibrary.InstallLibrary\<close>\<close>

definition InstallLibrary ::
  "world \<Rightarrow> config \<Rightarrow> library \<Rightarrow> state \<Rightarrow> ((exn + unit) \<times> library \<times> state) option" where
  "InstallLibrary w cfg lib s =
     (case IsHashRelevant w lib (hash_file_of cfg lib) s of
        (Inl e, lib1, s1) \<Rightarrow> Some (Inl e, lib1, s1)
      | (Inr True, lib1, s1) \<Rightarrow>
          Some (Inr (), lib1, log (''['' @ lib_name lib @ ''] is up to date.'') Info s1)
      | (Inr False, lib1, s1) \<Rightarrow>
          (case (if \<not> path_exists (files s1) (install_dir lib) then mkdir (install_dir lib) False s1
                 else (Inr (), s1)) of
             (Inl e, s2) \<Rightarrow> Some (Inl e, lib1, s2)
           | (Inr u, s2) \<Rightarrow>
               (case BuildAndInstall w cfg lib1
                       (log (''Installing ['' @ lib_name lib @ '']...'') Info s2) of
                  None \<Rightarrow> None
                | Some (Inl e, s3) \<Rightarrow> Some (Inl e, lib1, s3)
                | Some (Inr u, s3) \<Rightarrow>
                    (case WriteHash w lib1 (hash_file_of cfg lib) s3 of
                       (Inl e, lib2, s4) \<Rightarrow> Some (Inl e, lib2, s4)
                     | (Inr u, lib2, s4) \<Rightarrow>
                         Some (Inr (), lib2,
                               log (''['' @ lib_name lib @ ''] installed.'') Success s4)))))"

text \<open>
  The loop of \<open>main\<close> over the libraries. \<open>sys.exit(1)\<close> ends the run with the
  exit status 1; a run that reaches the end of \<open>main\<close> has the status 0.
\<close>

fun install_libraries ::
  "world \<Rightarrow> config \<Rightarrow> library list \<Rightarrow> state \<Rightarrow> (nat \<times> state) option" where
  "install_libraries w cfg [] s = Some (0, s)"
| "install_libraries w cfg (library # rest) s =
     (if \<not> path_exists (files s) (source_dir library) then
        install_libraries w cfg rest
          (log (''Source folder not found: '' @ str_path (source_dir library)) Warning s)
      else
        (case InstallLibrary w cfg library s of
           None \<Rightarrow> None
         | Some (Inl e, lib1, s1) \<Rightarrow>
             Some (1, log (''Failed to process '' @ lib_name library @ ''!'' @ [LF]
                           @ ''Error: '' @ str_exn e) Error s1)
         | Some (Inr u, lib1, s1) \<Rightarrow> install_libraries w cfg rest s1))"

definition main_install ::
  "world \<Rightarrow> config \<Rightarrow> library list \<Rightarrow> state \<Rightarrow> (nat \<times> state) option" where
  "main_install w cfg libraries s =
     (case install_libraries w cfg libraries s of
        None \<Rightarrow> None
      | Some (Suc code, s1) \<Rightarrow> Some (Suc code, s1)
      | Some (0, s1) \<Rightarrow>
          Some (0, if libraries = [] then log ''Nothing to do.'' Info s1
                   else log ''All libraries installed successfully'' Success s1))"


section \<open>Properties of runs\<close>

text \<open>
  A run from \<open>s\<close> to \<open>s'\<close> only adds events, and every event it adds
  satisfies \<open>Q\<close>.
\<close>

definition grows_by :: "(event \<Rightarrow> bool) \<Rightarrow> state \<Rightarrow> state \<Rightarrow> bool" where
  "grows_by Q s s' = (prefix (trace s) (trace s') \<and> list_all Q (new_events s s'))"

text \<open>The events that write a file line by line: only \<open>WriteLineAt\<close> has them.\<close>

fun is_record_write :: "event \<Rightarrow> bool" where
  "is_record_write (WriteLines p ls) = True"
| "is_record_write e = False"

abbreviation (input) nw :: "event \<Rightarrow> bool" where
  "nw \<equiv> (\<lambda>e. \<not> is_record_write e)"

text \<open>
  The content identity of a descriptor, as \<open>GetGitHash\<close> returns it, and the
  verdict of \<open>CheckGitHash\<close> and \<open>CheckBuildHash\<close> on an identity and what was
  read from the record.
\<close>

definition content_identity :: "world \<Rightarrow> library \<Rightarrow> exn + string" where
  "content_identity w lib =
     (case git_hash lib of
        Some h \<Rightarrow> Inr h
      | None \<Rightarrow> map_sum id strip (git_rev_parse w (source_dir lib)))"

fun caught :: "exn + bool \<Rightarrow> exn + bool" where
  "caught (Inl (CalledProcessError m)) = Inr False"
| "caught r = r"

definition check_line :: "exn + string \<Rightarrow> exn + string option \<Rightarrow> exn + bool" where
  "check_line identity line =
     caught (case identity of
               Inl e \<Rightarrow> Inl e
             | Inr h \<Rightarrow> (case line of Inl e \<Rightarrow> Inl e | Inr l \<Rightarrow> Inr (Some h = l)))"

text \<open>
  The lines of a text file as \<open>readlines\<close> returns them: no line is empty, a line
  feed can only be the last character of a line, and only the last line can lack it.
\<close>

definition proper_lines :: "string list \<Rightarrow> bool" where
  "proper_lines ls =
     ((\<forall>l \<in> set ls. l \<noteq> [] \<and> LF \<notin> set (butlast l)) \<and> (\<forall>l \<in> set (butlast ls). last l = LF))"

text \<open>
  The match \<open>p\<close> of the tree \<open>f\<close> is installed at \<open>t\<close> in the tree \<open>f'\<close>: a
  directory with everything that \<open>f\<close> holds below it, at the same relative path
  below \<open>t\<close>; any other match is a regular file, and \<open>t\<close> is that file.
\<close>

definition installed :: "fs \<Rightarrow> fs \<Rightarrow> path \<Rightarrow> path \<Rightarrow> bool" where
  "installed f f' p t =
     (if is_dir f p then (\<forall>r. f (p @ r) \<noteq> None \<longrightarrow> f' (t @ r) = f (p @ r))
      else is_file f p \<and> f' t = f p)"

text \<open>
  What holds after each round of the copy loop of one rule, started on the tree
  \<open>f0\<close>: nothing at or below the fixed-prefix directory \<open>root\<close> has changed, the
  matches \<open>D\<close> copied so far are installed below \<open>base\<close>, and no target of a match
  that is not a directory has become a directory.
\<close>

definition copy_inv :: "path \<Rightarrow> path \<Rightarrow> path list \<Rightarrow> fs \<Rightarrow> path set \<Rightarrow> fs \<Rightarrow> bool" where
  "copy_inv root base M f0 D f =
     ((\<forall>x. prefix root x \<longrightarrow> f x = f0 x)
      \<and> (\<forall>p \<in> D. installed f0 f p (base @ drop (length root) p))
      \<and> (\<forall>p \<in> set M. \<not> is_dir f0 p \<longrightarrow> \<not> is_dir f (base @ drop (length root) p)))"

section \<open>Example environments\<close>

text \<open>
  A small configuration and environment on which the theorems below are run: the
  sources under \<open>s\<close>, the installs under \<open>i\<close>, git answering with one
  revision, CMake processes that succeed and leave the files as they are, no
  wildcard matches, no lock held by another process, every file readable, and in
  place of MD5 a digest that returns the bytes of its argument.
\<close>

definition demo_cfg :: config where
  "demo_cfg = \<lparr> SOURCES_ROOT = [''s''], INSTALL_ROOT = [''i''], CACHE_ROOT = None,
                HEADER_SUBDIR = [''header-only''], CMAKE = ''cmake'', CMAKE_GLOBAL_ARGS = [] \<rparr>"

definition demo_world :: world where
  "demo_world = \<lparr> git_rev_parse = (\<lambda>d. Inr (''0a1b2c'' @ [LF])),
                  cmake_run = (\<lambda>argv cwd f. (None, f)),
                  glob_magic = (\<lambda>f pattern. []),
                  lock_free = (\<lambda>p. True),
                  md5 = (\<lambda>d. map of_char d),
                  denied = [] \<rparr>"

text \<open>The Steamworks example of the program's header comment.\<close>

definition steam_files :: fs where
  "steam_files = [[''s''] \<mapsto> Dir, [''s'', ''sdk''] \<mapsto> Dir,
     [''s'', ''sdk'', ''redistributable_bin''] \<mapsto> Dir,
     [''s'', ''sdk'', ''redistributable_bin'', ''win64''] \<mapsto> Dir,
     [''s'', ''sdk'', ''redistributable_bin'', ''win64'', ''steam_api64.dll''] \<mapsto> File ''MZ'']"

definition steam_world :: world where
  "steam_world = demo_world\<lparr> glob_magic := (\<lambda>f pattern.
     if pattern = [''s'', ''sdk'', ''redistributable_bin'', ''**'', ''*.dll'']
     then [[''s'', ''sdk'', ''redistributable_bin'', ''win64'', ''steam_api64.dll'']] else []) \<rparr>"

definition steam_lib :: library where
  "steam_lib = ManualLibrary_init demo_cfg (Path ''sdk'') (Path ''sdk'')
                 [(''redistributable_bin/**/*.dll'', ''bin'', [])]"

definition steam_state :: state where
  "steam_state = \<lparr> files = steam_files, trace = [] \<rparr>"

text \<open>A CMake library \<open>z\<close> with the given extra arguments, on a tree that holds its sources.\<close>

definition z_files :: fs where
  "z_files = [[''s''] \<mapsto> Dir, [''s'', ''z''] \<mapsto> Dir]"

definition z_state :: state where
  "z_state = \<lparr> files = z_files, trace = [] \<rparr>"

definition z_lib :: "string list \<Rightarrow> bool \<Rightarrow> library" where
  "z_lib args dbg = CMakeLibrary_init demo_cfg (Path ''z'') (Path ''z'') None (Some args) dbg"

text \<open>The state after \<open>z\<close> has been installed with the given extra arguments.\<close>

definition z_installed :: "string list \<Rightarrow> state" where
  "z_installed args =
     snd (snd (the (InstallLibrary demo_world demo_cfg (z_lib args False) z_state)))"

text \<open>
  The Steamworks tree with an install tree in which the path of the freshness
  record, \<open>i/sdk/hash_sdk.txt\<close>, is a directory.
\<close>

definition blocked_state :: state where
  "blocked_state =
     \<lparr> files = steam_files ++ [[''i''] \<mapsto> Dir, [''i'', ''sdk''] \<mapsto> Dir,
                                 [''i'', ''sdk'', ''hash_sdk.txt''] \<mapsto> Dir],
       trace = [] \<rparr>"

text \<open>
  Two CMake libraries, \<open>bad\<close> and \<open>z\<close>, in an environment where every CMake
  process started for \<open>bad\<close> fails.
\<close>

definition bad_lib :: library where
  "bad_lib = CMakeLibrary_init demo_cfg (Path ''bad'') (Path ''bad'') None None False"

definition bad_world :: world where
  "bad_world = demo_world\<lparr> cmake_run := (\<lambda>argv cwd f.
     if cwd = [''s'', ''bad'', ''build''] then (Some (CalledProcessError ''cmake failed''), f)
     else (None, f)) \<rparr>"

definition two_libs_state :: state where
  "two_libs_state =
     \<lparr> files = [[''s''] \<mapsto> Dir, [''s'', ''bad''] \<mapsto> Dir, [''s'', ''z''] \<mapsto> Dir],
       trace = [] \<rparr>"

text \<open>
  An install tree that holds stale records for the libraries \<open>sdk\<close> and \<open>z\<close>,
  an environment in which \<open>git rev-parse\<close> fails, and one in which the CMake
  install step fails.
\<close>

definition stale_state :: state where
  "stale_state =
     \<lparr> files = steam_files ++ [[''s'', ''z''] \<mapsto> Dir, [''i''] \<mapsto> Dir,
                                 [''i'', ''sdk''] \<mapsto> Dir,
                                 [''i'', ''sdk'', ''hash_sdk.txt''] \<mapsto> File (''old'' @ [LF]),
                                 [''i'', ''z''] \<mapsto> Dir,
                                 [''i'', ''z'', ''hash_z.txt''] \<mapsto> File (''old'' @ [LF])],
       trace = [] \<rparr>"

definition no_git_world :: world where
  "no_git_world = steam_world\<lparr> git_rev_parse :=
     (\<lambda>d. Inl (CalledProcessError ''not a git repository'')) \<rparr>"

definition no_install_world :: world where
  "no_install_world = demo_world\<lparr> cmake_run := (\<lambda>argv cwd f.
     if argv = [''cmake'', ''--install'', ''.''] then (Some (CalledProcessError ''install failed''), f)
     else (None, f)) \<rparr>"

text \<open>
  A record of the library \<open>z\<close> whose bytes are not UTF-8, and an environment in
  which the process may not read the record of \<open>z\<close>.
\<close>

definition garbled_state :: state where
  "garbled_state =
     \<lparr> files = z_files ++ [[''i''] \<mapsto> Dir, [''i'', ''z''] \<mapsto> Dir,
                             [''i'', ''z'', ''hash_z.txt''] \<mapsto> File [CHR 0xFF, CHR 0xFE, LF]],
       trace = [] \<rparr>"

definition locked_world :: world where
  "locked_world = demo_world\<lparr> denied := [[''i'', ''z'', ''hash_z.txt'']] \<rparr>"

text \<open>
  The library \<open>z\<close> with its record kept under the cache directory \<open>c\<close>: the
  record is that of an install with the extra argument \<open>-DOLD\<close>, and the install
  directory holds the installed archive.
\<close>

definition cache_cfg :: config where
  "cache_cfg = demo_cfg\<lparr> CACHE_ROOT := Some [''c''] \<rparr>"

definition cached_z :: "string list \<Rightarrow> library" where
  "cached_z args = CMakeLibrary_init cache_cfg (Path ''z'') (Path ''z'') None (Some args) False"

definition cached_state :: state where
  "cached_state =
     \<lparr> files = z_files ++ [[''c''] \<mapsto> Dir, [''c'', ''z''] \<mapsto> Dir,
                             [''c'', ''z'', ''hash_z.txt''] \<mapsto>
                               File (''0a1b2c'' @ [LF] @ hexdigest (md5 demo_world ''-DOLD'') @ [LF]),
                             [''i''] \<mapsto> Dir, [''i'', ''z''] \<mapsto> Dir,
                             [''i'', ''z'', ''libz.a''] \<mapsto> File ''!<arch>''],
       trace = [] \<rparr>"

text \<open>
  The Steamworks tree with an install tree in which the target of the library's
  one match, \<open>i/sdk/bin/win64/steam_api64.dll\<close>, is a directory.
\<close>

definition occupied_state :: state where
  "occupied_state =
     \<lparr> files = steam_files ++ [[''i''] \<mapsto> Dir, [''i'', ''sdk''] \<mapsto> Dir,
                                 [''i'', ''sdk'', ''bin''] \<mapsto> Dir,
                                 [''i'', ''sdk'', ''bin'', ''win64''] \<mapsto> Dir,
                                 [''i'', ''sdk'', ''bin'', ''win64'', ''steam_api64.dll''] \<mapsto> Dir],
       trace = [] \<rparr>"

text \<open>
  The headers of the Steamworks example, \<open>public/steam\<close> with one header in it and
  a file beside it, and an environment in which \<open>public/*\<close> matches both.
\<close>

definition public_files :: fs where
  "public_files = steam_files ++
     [[''s'', ''sdk'', ''public''] \<mapsto> Dir,
      [''s'', ''sdk'', ''public'', ''steam''] \<mapsto> Dir,
      [''s'', ''sdk'', ''public'', ''steam'', ''steam_api.h''] \<mapsto> File ''#pragma once'',
      [''s'', ''sdk'', ''public'', ''Readme.txt''] \<mapsto> File ''Steamworks'']"

definition public_state :: state where
  "public_state = \<lparr> files = public_files, trace = [] \<rparr>"

definition public_world :: world where
  "public_world = demo_world\<lparr> glob_magic := (\<lambda>f pattern.
     if pattern = [''s'', ''sdk'', ''public'', ''*'']
     then [[''s'', ''sdk'', ''public'', ''steam''], [''s'', ''sdk'', ''public'', ''Readme.txt'']]
     else []) \<rparr>"

definition public_lib :: library where
  "public_lib = ManualLibrary_init demo_cfg (Path ''sdk'') (Path ''sdk'')
                  [(''public/*'', ''include'', [])]"

section \<open>Traces only grow\<close>

lemma split_from_eq:
  "split_from parts i (drop i parts) =
     (take i parts @ takeWhile (\<lambda>seg. \<not> has_wildcard seg) (drop i parts),
      join ''/'' (dropWhile (\<lambda>seg. \<not> has_wildcard seg) (drop i parts)))"
proof (induction "drop i parts" arbitrary: i)
  case Nil
  then show ?case by simp
next
  case (Cons x xs)
  from Cons.hyps(2) have lt: "i < length parts"
    by (metis drop_all leI list.distinct(1))
  from Cons.hyps(2) have xs: "xs = drop (Suc i) parts"
    by (metis drop_Suc list.sel(3) tl_drop)
  from Cons.hyps(2) lt have x: "x = parts ! i"
    by (metis Cons_nth_drop_Suc list.inject)
  show ?case
  proof (cases "has_wildcard x")
    case True
    with Cons.hyps(2)[symmetric] show ?thesis by simp
  next
    case False
    have "split_from parts i (drop i parts) = split_from parts (Suc i) (drop (Suc i) parts)"
      using False Cons.hyps(2)[symmetric] xs by simp
    also have "\<dots> = (take (Suc i) parts @ takeWhile (\<lambda>seg. \<not> has_wildcard seg) (drop (Suc i) parts),
      join ''/'' (dropWhile (\<lambda>seg. \<not> has_wildcard seg) (drop (Suc i) parts)))"
      using Cons.hyps(1)[OF xs] .
    finally show ?thesis
      using False Cons.hyps(2)[symmetric] xs x lt by (simp add: take_Suc_conv_app_nth)
  qed
qed

lemma SplitPattern_eq:
  "SplitPattern pattern =
     (takeWhile (\<lambda>seg. \<not> has_wildcard seg) (Path pattern),
      join ''/'' (dropWhile (\<lambda>seg. \<not> has_wildcard seg) (Path pattern)))"
  using split_from_eq [of "Path pattern" 0] by (simp add: SplitPattern_def Let_def)

lemma mkdir_trace: "mkdir p e s = (r, s') \<Longrightarrow> prefix (trace s) (trace s')"
  by (auto simp: mkdir_def emit_def split: if_splits)

lemma copy2_trace: "copy2 w a b s = (r, s') \<Longrightarrow> prefix (trace s) (trace s')"
  by (auto simp: copy2_def emit_def Let_def split: if_splits option.splits node.splits)

lemma copytree_trace: "copytree w a b s = (r, s') \<Longrightarrow> prefix (trace s) (trace s')"
  by (auto simp: copytree_def emit_def Let_def split: if_splits)

lemma copy_match_trace: "copy_match w lib root dst p s = (r, s') \<Longrightarrow> prefix (trace s) (trace s')"
  by (auto simp: copy_match_def log_def Let_def split: option.splits if_splits prod.splits sum.splits
      dest: mkdir_trace copy2_trace copytree_trace prefix_order.trans)

lemma for_each_trace:
  assumes "\<And>x t r t'. body x t = (r, t') \<Longrightarrow> prefix (trace t) (trace t')"
  shows "for_each body xs s = (r, s') \<Longrightarrow> prefix (trace s) (trace s')"
proof (induction xs arbitrary: s)
  case Nil
  then show ?case by simp
next
  case (Cons x xs)
  obtain r1 s1 where b: "body x s = (r1, s1)" by (cases "body x s")
  show ?case
  proof (cases r1)
    case (Inl e)
    with Cons.prems b assms[OF b] show ?thesis by simp
  next
    case (Inr u)
    with Cons.prems b have "for_each body xs s1 = (r, s')" by simp
    from Cons.IH[OF this] assms[OF b] show ?thesis by (rule prefix_order.trans[rotated])
  qed
qed

lemma new_events_mono:
  assumes "e \<in> set (new_events s1 s2)" and "prefix (trace s0) (trace s1)" and "prefix (trace s1) (trace s2)"
    and "prefix (trace s2) (trace s3)"
  shows "e \<in> set (new_events s0 s3)"
proof -
  from assms(2,3,4) obtain a b c where a: "trace s1 = trace s0 @ a" and b: "trace s2 = trace s1 @ b"
    and c: "trace s3 = trace s2 @ c"
    by (auto simp: prefix_def)
  from assms(1) b have "e \<in> set b" by (simp add: new_events_def)
  then show ?thesis using a b c by (simp add: new_events_def)
qed

lemma copy2_new: "copy2 w a b s = (Inr u, s') \<Longrightarrow> new_events s s' = [Copy2 a b]"
  by (auto simp: copy2_def emit_def Let_def new_events_def split: if_splits option.splits node.splits)

lemma copytree_new: "copytree w a b s = (Inr u, s') \<Longrightarrow> new_events s s' = [CopyTree a b]"
  by (auto simp: copytree_def emit_def Let_def new_events_def split: if_splits)

lemma copy_match_new:
  assumes "copy_match w lib root dst p s = (Inr u, s')" and "relative_to p root = Some rel"
  shows "Copy2 p (pjoin (pjoin (install_dir lib) (Path dst)) rel) \<in> set (new_events s s')
       \<or> CopyTree p (pjoin (pjoin (install_dir lib) (Path dst)) rel) \<in> set (new_events s s')"
proof (cases "is_dir (files s) p")
  case True
  with assms have "copytree w p (pjoin (pjoin (install_dir lib) (Path dst)) rel) s = (Inr u, s')"
    by (simp add: copy_match_def)
  from copytree_new[OF this] show ?thesis by simp
next
  case False
  with assms obtain s1 where m: "mkdir (path_parent (pjoin (pjoin (install_dir lib) (Path dst)) rel)) True s = (Inr (), s1)"
    and c: "copy2 w p (pjoin (pjoin (install_dir lib) (Path dst)) rel) s1 = (Inr u, s')"
    by (auto simp: copy_match_def Let_def split: prod.splits sum.splits)
  have "Copy2 p (pjoin (pjoin (install_dir lib) (Path dst)) rel) \<in> set (new_events s1 s')"
    using copy2_new[OF c] by simp
  from new_events_mono[OF this mkdir_trace[OF m]] copy2_trace[OF c]
  show ?thesis by blast
qed

lemma for_each_new_event:
  assumes mono: "\<And>x t r t'. body x t = (r, t') \<Longrightarrow> prefix (trace t) (trace t')"
    and ev: "\<And>t u t'. body x t = (Inr u, t') \<Longrightarrow> P (new_events t t')"
    and up: "\<And>a b c. P b \<Longrightarrow> P (a @ b @ c)"
  shows "for_each body xs s = (Inr u, s') \<Longrightarrow> x \<in> set xs \<Longrightarrow> P (new_events s s')"
proof (induction xs arbitrary: s)
  case Nil
  then show ?case by simp
next
  case (Cons y ys)
  obtain r1 s1 where b: "body y s = (r1, s1)" by (cases "body y s")
  with Cons.prems(1) obtain u1 where r1: "r1 = Inr u1" and rest: "for_each body ys s1 = (Inr u, s')"
    by (cases r1) auto
  from mono[OF b] obtain a where a: "trace s1 = trace s @ a" by (auto simp: prefix_def)
  have "prefix (trace s1) (trace s')"
    by (rule for_each_trace[where body = body, OF _ rest]) (rule mono)
  then obtain c where c: "trace s' = trace s1 @ c"
    by (auto simp: prefix_def)
  have ne: "new_events s s' = a @ c" "new_events s s1 = a" "new_events s1 s' = c"
    using a c by (simp_all add: new_events_def)
  show ?case
  proof (cases "x = y")
    case True
    with b r1 have "P (new_events s s1)" using ev by blast
    with up[of a "[]" c] show ?thesis by (simp add: ne)
  next
    case False
    with Cons.prems(2) have "x \<in> set ys" by simp
    from Cons.IH[OF rest this] up[of c a "[]"] show ?thesis by (simp add: ne)
  qed
qed


section \<open>Reading the record\<close>

lemma split_on_no_sep: "c \<notin> set x \<Longrightarrow> split_on c x = [x]"
  by (induction x) auto

lemma split_on_append_sep: "c \<notin> set x \<Longrightarrow> split_on c (x @ c # r) = x # split_on c r"
  by (induction x) auto

lemma split_on_join:
  "xs \<noteq> [] \<Longrightarrow> \<forall>x \<in> set xs. c \<notin> set x \<Longrightarrow> split_on c (join [c] xs) = xs"
  by (induction "[c]" xs rule: join.induct) (simp_all add: split_on_no_sep split_on_append_sep)

lemma join_inject:
  assumes "xs \<noteq> []" "ys \<noteq> []" "\<forall>x \<in> set xs. c \<notin> set x" "\<forall>y \<in> set ys. c \<notin> set y"
    and "join [c] xs = join [c] ys"
  shows "xs = ys"
proof -
  have "xs = split_on c (join [c] xs)" by (rule split_on_join [OF assms(1) assms(3), symmetric])
  also have "\<dots> = split_on c (join [c] ys)" by (simp only: assms(5))
  also have "\<dots> = ys" by (rule split_on_join [OF assms(2) assms(4)])
  finally show ?thesis .
qed

lemma ReadLineAt_exists: "ReadLineAt w p n s = Inr (Some l) \<Longrightarrow> path_exists (files s) p"
  by (auto simp: ReadLineAt_def split: if_splits)

lemma ReadLineAt_emit [simp]: "ReadLineAt w p n (emit e s) = ReadLineAt w p n s"
  by (simp add: ReadLineAt_def emit_def)

lemma ReadLineAt_log [simp]: "ReadLineAt w p n (log m t s) = ReadLineAt w p n s"
  by (simp add: ReadLineAt_def log_def)

lemma GetGitHash_fresh:
  "git_hash lib = None \<Longrightarrow> git_rev_parse w (source_dir lib) = Inr out \<Longrightarrow>
   GetGitHash w lib s = (Inr (strip out), lib\<lparr>git_hash := Some (strip out)\<rparr>,
     emit (Subprocess [''git'', ''-C'', str_path (source_dir lib), ''rev-parse'', ''HEAD''] None None) s)"
  by (simp add: GetGitHash_def)

lemma CheckGitHash_read:
  "GetGitHash w lib s = (Inr h, lib1, s1) \<Longrightarrow> ReadLineAt w hash_file 1 s1 = Inr line \<Longrightarrow>
   CheckGitHash w lib hash_file s = (Inr (Some h = line), lib1, s1)"
  by (simp add: CheckGitHash_def)


lemma GetBuildHash_fresh:
  "build_hash lib = None \<Longrightarrow>
   GetBuildHash w lib = (hexdigest (md5 w (join ''|'' (extra_args lib))),
                         lib\<lparr>build_hash := Some (hexdigest (md5 w (join ''|'' (extra_args lib))))\<rparr>)"
  by (simp add: GetBuildHash_def Let_def)

lemma CheckBuildHash_read:
  "GetBuildHash w lib = (h, lib1) \<Longrightarrow> ReadLineAt w hash_file 2 s = Inr line \<Longrightarrow>
   CheckBuildHash w lib hash_file s = (Inr (Some h = line), lib1, s)"
  by (simp add: CheckBuildHash_def)

lemma IsHashRelevant_base_read:
  "path_exists (files s) hash_file \<Longrightarrow> GetGitHash w lib s = (Inr h, lib1, s1) \<Longrightarrow>
   ReadLineAt w hash_file 1 s1 = Inr line \<Longrightarrow>
   IsHashRelevant_base w lib hash_file s = (Inr (Some h = line), lib1, s1)"
  by (simp add: IsHashRelevant_base_def CheckGitHash_read)

section \<open>The up-to-date check\<close>

lemma files_log [simp]: "files (log m t s) = files s"
  by (simp add: log_def)

lemma files_emit [simp]: "files (emit e s) = files s"
  by (simp add: emit_def)

lemma ReadLineAt_cases:
  "ReadLineAt w p n s =
     (if \<not> path_exists (files s) p then Inr None
      else case read_text w (files s) p of
        Inl e \<Rightarrow> Inl e
      | Inr c \<Rightarrow> Inr (if 1 \<le> n \<and> n \<le> length (readlines (translate_newlines c))
                      then Some (rstrip_nl (readlines (translate_newlines c) ! (n - 1)))
                      else None))"
  by (simp add: ReadLineAt_def Let_def split: sum.splits)

lemma ReadLineAt_files: "files s1 = files s \<Longrightarrow> ReadLineAt w p n s1 = ReadLineAt w p n s"
  by (simp add: ReadLineAt_def)

lemma GetGitHash_frame:
  assumes "GetGitHash w lib s = (r, lib1, s1)"
  shows "files s1 = files s \<and> cls lib1 = cls lib \<and> build_hash lib1 = build_hash lib
         \<and> extra_args lib1 = extra_args lib
         \<and> (\<forall>e. r = Inl e \<longrightarrow> git_rev_parse w (source_dir lib) = Inl e)"
  using assms
  by (auto simp: GetGitHash_def emit_def Let_def split: option.splits sum.splits)

lemma GetBuildHash_fst:
  "build_hash lib1 = build_hash lib \<Longrightarrow> extra_args lib1 = extra_args lib \<Longrightarrow>
   fst (GetBuildHash w lib1) = fst (GetBuildHash w lib)"
  by (simp add: GetBuildHash_def Let_def split: option.splits)

lemma CheckGitHash_caught:
  "GetGitHash w lib s = (Inl (CalledProcessError m), lib1, s1) \<Longrightarrow>
   \<exists>s2. CheckGitHash w lib hash_file s = (Inr False, lib1, s2) \<and> files s2 = files s1"
  by (simp add: CheckGitHash_def)

lemma IsHashRelevant_base_missing:
  "\<not> path_exists (files s) hash_file \<Longrightarrow>
   IsHashRelevant_base w lib hash_file s = (Inr False, lib, s)"
  by (simp add: IsHashRelevant_base_def)

lemma IsHashRelevant_base_check:
  "path_exists (files s) hash_file \<Longrightarrow> CheckGitHash w lib hash_file s = (Inr b, lib1, s1) \<Longrightarrow>
   IsHashRelevant_base w lib hash_file s = (Inr b, lib1, s1)"
  by (simp add: IsHashRelevant_base_def)

lemma IsHashRelevant_manual:
  "cls lib = ManualLibrary \<Longrightarrow> IsHashRelevant w lib hash_file s = IsHashRelevant_base w lib hash_file s"
  by (simp add: IsHashRelevant_def)

lemma IsHashRelevant_cmake_stale:
  "cls lib = CMakeLibrary \<Longrightarrow> IsHashRelevant_base w lib hash_file s = (Inr False, lib1, s1) \<Longrightarrow>
   IsHashRelevant w lib hash_file s = (Inr False, lib1, s1)"
  by (simp add: IsHashRelevant_def)

lemma IsHashRelevant_cmake_build:
  "cls lib = CMakeLibrary \<Longrightarrow> IsHashRelevant_base w lib hash_file s = (Inr True, lib1, s1) \<Longrightarrow>
   IsHashRelevant w lib hash_file s = CheckBuildHash w lib1 hash_file s1"
  by (simp add: IsHashRelevant_def)

section \<open>The events of each operation\<close>

lemma grows_by_refl [simp]: "grows_by Q s s"
  by (simp add: grows_by_def new_events_def)

lemma grows_by_trans:
  assumes "grows_by Q s s1" and "grows_by Q s1 s2"
  shows "grows_by Q s s2"
proof -
  from assms obtain a b where a: "trace s1 = trace s @ a" and b: "trace s2 = trace s1 @ b"
    by (auto simp: grows_by_def prefix_def)
  with assms show ?thesis by (simp add: grows_by_def new_events_def)
qed

lemma grows_by_weaken:
  assumes "grows_by Q s s'" and "\<And>e. Q e \<Longrightarrow> R e"
  shows "grows_by R s s'"
  using assms by (auto simp: grows_by_def list_all_iff)

lemma grows_by_emit: "Q e \<Longrightarrow> trace s1 = trace s \<Longrightarrow> grows_by Q s (emit e s1)"
  by (simp add: grows_by_def emit_def new_events_def)

lemma grows_by_log: "Q (Log t m) \<Longrightarrow> grows_by Q s (log m t s)"
  by (simp add: grows_by_def log_def new_events_def)

lemma grows_by_prefix: "grows_by Q s s' \<Longrightarrow> prefix (trace s) (trace s')"
  by (simp add: grows_by_def)

lemma grows_by_mkdir:
  "mkdir p e s = (r, s') \<Longrightarrow> Q (Mkdir p e) \<Longrightarrow> grows_by Q s s'"
  by (auto simp: mkdir_def split: if_splits intro!: grows_by_emit)

lemma grows_by_open_w:
  "open_w p s = (r, s') \<Longrightarrow> Q (OpenW p) \<Longrightarrow> grows_by Q s s'"
  by (auto simp: open_w_def split: if_splits intro!: grows_by_emit)

lemma grows_by_write_lines:
  "write_lines p ls s = (r, s') \<Longrightarrow> Q (WriteLines p ls) \<Longrightarrow> grows_by Q s s'"
  by (auto simp: write_lines_def split: if_splits intro!: grows_by_emit)

lemma grows_by_rmtree:
  "rmtree p s = (r, s') \<Longrightarrow> Q (Rmtree p) \<Longrightarrow> grows_by Q s s'"
  by (auto simp: rmtree_def split: if_splits intro!: grows_by_emit)

lemma grows_by_copy2:
  "copy2 w a b s = (r, s') \<Longrightarrow> Q (Copy2 a b) \<Longrightarrow> grows_by Q s s'"
  by (auto simp: copy2_def Let_def split: if_splits option.splits node.splits intro!: grows_by_emit)

lemma grows_by_copytree:
  "copytree w a b s = (r, s') \<Longrightarrow> Q (CopyTree a b) \<Longrightarrow> grows_by Q s s'"
  by (auto simp: copytree_def Let_def split: if_splits intro!: grows_by_emit)

lemma grows_by_purge: "Q (Purge d k) \<Longrightarrow> grows_by Q s (purge d k s)"
  by (auto simp: purge_def intro!: grows_by_emit)

lemma grows_by_run_cmake:
  "run_cmake w argv cwd s = (r, s') \<Longrightarrow> (\<And>x. Q (Subprocess argv (Some cwd) x)) \<Longrightarrow> grows_by Q s s'"
  by (auto simp: run_cmake_def split: prod.splits intro!: grows_by_emit)

lemma grows_byD: "grows_by Q s s' \<Longrightarrow> \<exists>evs. trace s' = trace s @ evs \<and> list_all Q evs"
  by (auto simp: grows_by_def prefix_def new_events_def)

lemma grows_byI: "\<exists>evs. trace s' = trace s @ evs \<and> list_all Q evs \<Longrightarrow> grows_by Q s s'"
  by (auto simp: grows_by_def prefix_def new_events_def)

lemma nw_mkdir: "mkdir p e s = (r, s') \<Longrightarrow> grows_by nw s s'"
  by (erule grows_by_mkdir) simp

lemma nw_open_w: "open_w p s = (r, s') \<Longrightarrow> grows_by nw s s'"
  by (erule grows_by_open_w) simp

lemma nw_rmtree: "rmtree p s = (r, s') \<Longrightarrow> grows_by nw s s'"
  by (erule grows_by_rmtree) simp

lemma nw_copy2: "copy2 w a b s = (r, s') \<Longrightarrow> grows_by nw s s'"
  by (erule grows_by_copy2) simp

lemma nw_copytree: "copytree w a b s = (r, s') \<Longrightarrow> grows_by nw s s'"
  by (erule grows_by_copytree) simp

lemma nw_run_cmake: "run_cmake w argv cwd s = (r, s') \<Longrightarrow> grows_by nw s s'"
  by (erule grows_by_run_cmake) simp

lemma nw_log: "grows_by nw s (log m t s)"
  by (rule grows_by_log) simp

lemma nw_purge: "grows_by nw s (purge d k s)"
  by (rule grows_by_purge) simp

lemma trace_log: "trace (log m t s) = trace s @ [Log t m]"
  by (simp add: log_def)

lemma trace_purge: "trace (purge d k s) = trace s @ [Purge d k]"
  by (simp add: purge_def emit_def)

lemmas nw_prims = nw_mkdir[THEN grows_byD] nw_open_w[THEN grows_byD] nw_rmtree[THEN grows_byD]
  nw_copy2[THEN grows_byD] nw_copytree[THEN grows_byD] nw_run_cmake[THEN grows_byD]

lemma nw_copy_match: "copy_match w lib root dst p s = (r, s') \<Longrightarrow> grows_by nw s s'"
  by (rule grows_byI)
     (auto simp: copy_match_def Let_def trace_log split: option.splits if_splits prod.splits sum.splits
           dest!: nw_prims)

lemma nw_AcquireLock: "AcquireLock w p s = (r, s') \<Longrightarrow> grows_by nw s s'"
  by (rule grows_byI)
     (auto simp: AcquireLock_def split: prod.splits sum.splits dest!: nw_prims)

lemma nw_cleanup_install: "cleanup_install lib s = (r, s') \<Longrightarrow> grows_by nw s s'"
  by (rule grows_byI)
     (auto simp: cleanup_install_def split: prod.splits sum.splits if_splits dest!: nw_prims)

lemma nw_build_config:
  "build_config w cfg lib bdir isMulti many config need s = (r, s') \<Longrightarrow> grows_by nw s s'"
  by (rule grows_byI)
     (auto simp: build_config_def Let_def trace_log split: prod.splits sum.splits if_splits
           dest!: nw_prims nw_cleanup_install[THEN grows_byD])

lemma nw_for_each_aux:
  assumes "\<And>x t r t'. body x t = (r, t') \<Longrightarrow> grows_by nw t t'"
  shows "for_each body xs s = (r, s') \<Longrightarrow> grows_by nw s s'"
proof (induction xs arbitrary: s)
  case Nil
  then show ?case by simp
next
  case (Cons x xs)
  obtain r1 s1 where b: "body x s = (r1, s1)" by (cases "body x s")
  note g1 = assms[OF b]
  show ?case
  proof (cases r1)
    case (Inl e)
    with Cons.prems b g1 show ?thesis by simp
  next
    case (Inr u)
    with Cons.prems b have "for_each body xs s1 = (r, s')" by simp
    from grows_by_trans[OF g1 Cons.IH[OF this]] show ?thesis .
  qed
qed

lemma nw_for_each:
  assumes "for_each body xs s = (r, s')"
    and "\<And>x t r t'. body x t = (r, t') \<Longrightarrow> grows_by nw t t'"
  shows "grows_by nw s s'"
  by (rule nw_for_each_aux[where body = body, OF _ assms(1)]) (rule assms(2))

lemma nw_apply_rule: "apply_rule w lib rule s = (r, s') \<Longrightarrow> grows_by nw s s'"
proof -
  assume a: "apply_rule w lib rule s = (r, s')"
  obtain pattern dst ex where rule: "rule = (pattern, dst, ex)" by (cases rule)
  obtain fixed sub where sp: "SplitPattern pattern = (fixed, sub)" by (cases "SplitPattern pattern")
  let ?root = "pjoin (source_dir lib) fixed"
  show ?thesis
  proof (cases "path_exists (files s) ?root")
    case False
    with a rule sp show ?thesis by (auto simp: apply_rule_def Let_def intro: nw_log)
  next
    case True
    show ?thesis
    proof (cases "is_file (files s) ?root")
      case isf: True
      with \<open>path_exists (files s) ?root\<close> a rule sp show ?thesis
        by (intro grows_byI)
           (auto simp: apply_rule_def Let_def trace_log split: prod.splits sum.splits if_splits
                 dest!: nw_prims)
    next
      case False
      with True a rule sp
      have "for_each (copy_match w lib ?root dst) (to_copy w lib fixed sub ex (files s)) s = (r, s')"
        by (simp add: apply_rule_def Let_def)
      then show ?thesis by (rule nw_for_each) (rule nw_copy_match)
    qed
  qed
qed

lemma nw_Manual_BuildAndInstall: "Manual_BuildAndInstall w lib s = (r, s') \<Longrightarrow> grows_by nw s s'"
  unfolding Manual_BuildAndInstall_def by (erule nw_for_each) (rule nw_apply_rule)

lemma nw_lock_loop_snd:
  assumes "lock_loop w lib bdir n s = Some y"
  shows "grows_by nw s (snd y)"
proof (rule lock_loop.raw_induct[where P = "\<lambda>w lib bdir n s y. grows_by nw s (snd y)", OF _ assms])
  fix loop w lib bdir n s y
  assume IH: "\<And>w lib bdir n s y. loop w lib bdir n s = Some y \<Longrightarrow> grows_by nw s (snd y)"
    and step: "(case AcquireLock w (pjoin bdir (Path ''.lock'')) s of
                  (Inl e, s1) \<Rightarrow> Some ((Some e, False, bdir), s1)
                | (Inr lock, s1) \<Rightarrow>
                    if lock then Some ((None, True, bdir),
                                       purge bdir (path_name (pjoin bdir (Path ''.lock''))) s1)
                    else loop w lib (numbered_build_dir lib (Suc n)) (Suc n) s1) = Some y"
  obtain r1 s1 where a: "AcquireLock w (pjoin bdir (Path ''.lock'')) s = (r1, s1)"
    by (cases "AcquireLock w (pjoin bdir (Path ''.lock'')) s")
  note g1 = nw_AcquireLock[OF a]
  show "grows_by nw s (snd y)"
  proof (cases r1)
    case (Inl e)
    with step a g1 show ?thesis by auto
  next
    case (Inr lock)
    show ?thesis
    proof (cases lock)
      case True
      with step a Inr have "snd y = purge bdir (path_name (pjoin bdir (Path ''.lock''))) s1" by auto
      with grows_by_trans[OF g1 nw_purge] show ?thesis by simp
    next
      case False
      with step a Inr have "loop w lib (numbered_build_dir lib (Suc n)) (Suc n) s1 = Some y"
        by simp
      from grows_by_trans[OF g1 IH[OF this]] show ?thesis .
    qed
  qed
qed

lemma nw_lock_loop: "lock_loop w lib bdir n s = Some (res, s') \<Longrightarrow> grows_by nw s s'"
  using nw_lock_loop_snd[of w lib bdir n s "(res, s')"] by simp

lemma nw_build_configs:
  "build_configs w cfg lib bdir isMulti many configs need s = (r, s') \<Longrightarrow> grows_by nw s s'"
proof (induction configs arbitrary: need s)
  case Nil
  then show ?case by simp
next
  case (Cons c cs)
  obtain r1 s1 where b: "build_config w cfg lib bdir isMulti many c need s = (r1, s1)"
    by (cases "build_config w cfg lib bdir isMulti many c need s")
  note g1 = nw_build_config[OF b]
  show ?case
  proof (cases r1)
    case (Inl e)
    with Cons.prems b g1 show ?thesis by simp
  next
    case (Inr need')
    with Cons.prems b have "build_configs w cfg lib bdir isMulti many cs need' s1 = (r, s')" by simp
    from grows_by_trans[OF g1 Cons.IH[OF this]] show ?thesis .
  qed
qed

lemma nw_configure_and_build:
  "configure_and_build w cfg lib bdir s = (r, s') \<Longrightarrow> grows_by nw s s'"
  by (rule grows_byI)
     (auto simp: configure_and_build_def Let_def simp del: build_configs.simps
           split: prod.splits sum.splits
           dest!: nw_prims nw_build_configs[THEN grows_byD])

lemma nw_CMake_BuildAndInstall:
  "CMake_BuildAndInstall w cfg lib s = Some (r, s') \<Longrightarrow> grows_by nw s s'"
  by (rule grows_byI)
     (auto simp: CMake_BuildAndInstall_def trace_log split: option.splits prod.splits sum.splits
           dest!: nw_prims nw_lock_loop[THEN grows_byD] nw_configure_and_build[THEN grows_byD])

lemma nw_BuildAndInstall:
  "BuildAndInstall w cfg lib s = Some (r, s') \<Longrightarrow> grows_by nw s s'"
  by (cases "cls lib")
     (auto simp: BuildAndInstall_def dest: nw_CMake_BuildAndInstall nw_Manual_BuildAndInstall)

lemma nw_GetGitHash: "GetGitHash w lib s = (r, lib1, s1) \<Longrightarrow> grows_by nw s s1"
  by (auto simp: GetGitHash_def Let_def split: option.splits sum.splits intro!: grows_by_emit)

lemma nw_CheckGitHash: "CheckGitHash w lib hf s = (r, lib1, s1) \<Longrightarrow> grows_by nw s s1"
  by (rule grows_byI)
     (auto simp: CheckGitHash_def trace_log split: prod.splits sum.splits exn.splits
           dest!: nw_GetGitHash[THEN grows_byD])

lemma nw_CheckBuildHash: "CheckBuildHash w lib hf s = (r, lib1, s1) \<Longrightarrow> grows_by nw s s1"
  by (rule grows_byI)
     (auto simp: CheckBuildHash_def trace_log split: prod.splits sum.splits exn.splits)

lemma nw_IsHashRelevant_base: "IsHashRelevant_base w lib hf s = (r, lib1, s1) \<Longrightarrow> grows_by nw s s1"
  by (auto simp: IsHashRelevant_base_def split: if_splits prod.splits sum.splits
           dest: nw_CheckGitHash)

lemma nw_IsHashRelevant: "IsHashRelevant w lib hf s = (r, lib1, s1) \<Longrightarrow> grows_by nw s s1"
  by (rule grows_byI)
     (auto simp: IsHashRelevant_def split: lib_class.splits prod.splits sum.splits bool.splits
           dest!: nw_IsHashRelevant_base[THEN grows_byD] nw_CheckBuildHash[THEN grows_byD])

section \<open>The steps of an install\<close>

lemma GetGitHash_fails:
  "git_hash lib = None \<Longrightarrow> git_rev_parse w (source_dir lib) = Inl e \<Longrightarrow>
   \<exists>s1. GetGitHash w lib s = (Inl e, lib, s1) \<and> files s1 = files s"
  by (simp add: GetGitHash_def Let_def)

lemma IsHashRelevant_git_fails:
  assumes fresh: "git_hash lib = None"
    and git: "git_rev_parse w (source_dir lib) = Inl (CalledProcessError m)"
  shows "\<exists>s1. IsHashRelevant w lib hash_file s = (Inr False, lib, s1) \<and> files s1 = files s"
proof -
  have base: "\<exists>s1. IsHashRelevant_base w lib hash_file s = (Inr False, lib, s1) \<and> files s1 = files s"
  proof (cases "path_exists (files s) hash_file")
    case False
    from IsHashRelevant_base_missing[OF False, of w lib] show ?thesis by simp
  next
    case True
    from GetGitHash_fails[OF fresh git, of s] obtain s1
      where g: "GetGitHash w lib s = (Inl (CalledProcessError m), lib, s1)" and f1: "files s1 = files s"
      by blast
    from CheckGitHash_caught[OF g, of hash_file] obtain s2
      where c: "CheckGitHash w lib hash_file s = (Inr False, lib, s2)" and f2: "files s2 = files s1"
      by blast
    from IsHashRelevant_base_check[OF True c] f1 f2 show ?thesis by simp
  qed
  then obtain s1 where b: "IsHashRelevant_base w lib hash_file s = (Inr False, lib, s1)"
    and f: "files s1 = files s" by blast
  show ?thesis
  proof (cases "cls lib")
    case CMakeLibrary
    from IsHashRelevant_cmake_stale[OF CMakeLibrary b] f show ?thesis by simp
  next
    case ManualLibrary
    from b f show ?thesis unfolding IsHashRelevant_manual[OF ManualLibrary] by simp
  qed
qed

lemma WriteHash_git_fails:
  assumes fresh: "git_hash lib = None"
    and git: "git_rev_parse w (source_dir lib) = Inl e"
  shows "\<exists>s1. WriteHash w lib hash_file s = (Inl e, lib, s1) \<and> grows_by nw s s1"
proof -
  from GetGitHash_fails[OF fresh git, of s] obtain s1
    where g: "GetGitHash w lib s = (Inl e, lib, s1)" by blast
  have "WriteHash_base w lib hash_file s = (Inl e, lib, s1)"
    using g by (simp add: WriteHash_base_def)
  then have "WriteHash w lib hash_file s = (Inl e, lib, s1)"
    by (cases "cls lib") (simp_all add: WriteHash_def)
  with nw_GetGitHash[OF g] show ?thesis by blast
qed

text \<open>The steps of \<open>InstallLibrary\<close>, one lemma for each way it goes on.\<close>

lemma InstallLibrary_check_raises:
  "IsHashRelevant w lib (hash_file_of cfg lib) s = (Inl e, lib1, s1) \<Longrightarrow>
   InstallLibrary w cfg lib s = Some (Inl e, lib1, s1)"
  by (simp add: InstallLibrary_def)

lemma InstallLibrary_up_to_date:
  "IsHashRelevant w lib (hash_file_of cfg lib) s = (Inr True, lib1, s1) \<Longrightarrow>
   InstallLibrary w cfg lib s
   = Some (Inr (), lib1, log (''['' @ lib_name lib @ ''] is up to date.'') Info s1)"
  by (simp add: InstallLibrary_def)

lemma InstallLibrary_mkdir_raises:
  "IsHashRelevant w lib (hash_file_of cfg lib) s = (Inr False, lib1, s1) \<Longrightarrow>
   (if \<not> path_exists (files s1) (install_dir lib) then mkdir (install_dir lib) False s1
    else (Inr (), s1)) = (Inl e, s2) \<Longrightarrow>
   InstallLibrary w cfg lib s = Some (Inl e, lib1, s2)"
  by (simp add: InstallLibrary_def)

lemma InstallLibrary_build:
  "IsHashRelevant w lib (hash_file_of cfg lib) s = (Inr False, lib1, s1) \<Longrightarrow>
   (if \<not> path_exists (files s1) (install_dir lib) then mkdir (install_dir lib) False s1
    else (Inr (), s1)) = (Inr (), s2) \<Longrightarrow>
   InstallLibrary w cfg lib s =
     (case BuildAndInstall w cfg lib1 (log (''Installing ['' @ lib_name lib @ '']...'') Info s2) of
        None \<Rightarrow> None
      | Some (Inl e, s3) \<Rightarrow> Some (Inl e, lib1, s3)
      | Some (Inr u, s3) \<Rightarrow>
          (case WriteHash w lib1 (hash_file_of cfg lib) s3 of
             (Inl e, lib2, s4) \<Rightarrow> Some (Inl e, lib2, s4)
           | (Inr u, lib2, s4) \<Rightarrow>
               Some (Inr (), lib2, log (''['' @ lib_name lib @ ''] installed.'') Success s4)))"
  by (simp add: InstallLibrary_def)

lemma nw_ensure_install_dir:
  "(if \<not> path_exists (files s1) d then mkdir d False s1 else (Inr (), s1)) = (r, s2) \<Longrightarrow>
   grows_by nw s1 s2"
  by (auto split: if_splits dest: nw_mkdir)

section \<open>The verdict of the up-to-date check\<close>

lemma ReadLineAt_local: "files s' p = files s p \<Longrightarrow> ReadLineAt w p n s' = ReadLineAt w p n s"
  by (simp add: ReadLineAt_def read_text_def path_exists_def)

lemma fst_GetGitHash: "fst (GetGitHash w lib s) = content_identity w lib"
  by (simp add: GetGitHash_def content_identity_def Let_def split: option.splits sum.splits)

lemma GetGitHash_collapse:
  "\<exists>lib1 s1. GetGitHash w lib s = (content_identity w lib, lib1, s1) \<and> files s1 = files s
      \<and> build_hash lib1 = build_hash lib \<and> extra_args lib1 = extra_args lib"
proof -
  obtain r lib1 s1 where g: "GetGitHash w lib s = (r, lib1, s1)" by (cases "GetGitHash w lib s")
  from fst_GetGitHash[of w lib s] g have "r = content_identity w lib" by simp
  with g GetGitHash_frame[OF g] show ?thesis by simp
qed

lemma CheckGitHash_verdict:
  "\<exists>lib1 s1. CheckGitHash w lib hf s = (check_line (content_identity w lib) (ReadLineAt w hf 1 s), lib1, s1)
      \<and> files s1 = files s \<and> build_hash lib1 = build_hash lib \<and> extra_args lib1 = extra_args lib"
proof -
  from GetGitHash_collapse[of w lib s] obtain lib1 s1
    where g: "GetGitHash w lib s = (content_identity w lib, lib1, s1)" and f: "files s1 = files s"
      and b: "build_hash lib1 = build_hash lib" "extra_args lib1 = extra_args lib"
    by blast
  have rd: "ReadLineAt w hf 1 s1 = ReadLineAt w hf 1 s" by (rule ReadLineAt_local) (simp add: f)
  show ?thesis
  proof (cases "content_identity w lib")
    case (Inl e)
    show ?thesis
    proof (cases e)
      case (CalledProcessError m)
      from CheckGitHash_caught[OF g[unfolded Inl CalledProcessError], of hf] f b Inl CalledProcessError
      show ?thesis by (auto simp: check_line_def)
    qed (use g Inl f b in \<open>simp_all add: CheckGitHash_def check_line_def\<close>)
  next
    case (Inr h)
    show ?thesis
    proof (cases "ReadLineAt w hf 1 s")
      case rl: (Inl e)
      then show ?thesis
        using g Inr f b rd
        by (cases e) (simp_all add: CheckGitHash_def check_line_def)
    next
      case rr: (Inr l)
      from CheckGitHash_read[OF g[unfolded Inr] rd[unfolded rr]] Inr rr f b
      show ?thesis by (simp add: check_line_def)
    qed
  qed
qed

lemma CheckBuildHash_verdict:
  "\<exists>lib1 s1. CheckBuildHash w lib hf s
       = (check_line (Inr (fst (GetBuildHash w lib))) (ReadLineAt w hf 2 s), lib1, s1)
     \<and> files s1 = files s"
proof -
  obtain h lib1 where g: "GetBuildHash w lib = (h, lib1)" by (cases "GetBuildHash w lib")
  show ?thesis
  proof (cases "ReadLineAt w hf 2 s")
    case (Inl e)
    then show ?thesis using g by (cases e) (simp_all add: CheckBuildHash_def check_line_def)
  next
    case (Inr l)
    from CheckBuildHash_read[OF g Inr] g Inr show ?thesis by (simp add: check_line_def)
  qed
qed

text \<open>The verdict of the whole check, from the record's two lines.\<close>

lemma IsHashRelevant_verdict:
  "fst (IsHashRelevant w lib hf s) =
     (if \<not> path_exists (files s) hf then Inr False
      else case check_line (content_identity w lib) (ReadLineAt w hf 1 s) of
             Inr True \<Rightarrow>
               (if cls lib = CMakeLibrary
                then check_line (Inr (fst (GetBuildHash w lib))) (ReadLineAt w hf 2 s)
                else Inr True)
           | r \<Rightarrow> r)"
proof (cases "path_exists (files s) hf")
  case False
  from IsHashRelevant_base_missing[OF False, of w lib] show ?thesis
    using False by (cases "cls lib") (simp_all add: IsHashRelevant_def)
next
  case True
  from CheckGitHash_verdict[of w lib hf s] obtain lib1 s1
    where c: "CheckGitHash w lib hf s = (check_line (content_identity w lib) (ReadLineAt w hf 1 s), lib1, s1)"
      and f: "files s1 = files s"
      and b: "build_hash lib1 = build_hash lib" "extra_args lib1 = extra_args lib"
    by blast
  let ?v = "check_line (content_identity w lib) (ReadLineAt w hf 1 s)"
  show ?thesis
  proof (cases ?v)
    case (Inl e)
    with True c show ?thesis
      by (cases "cls lib") (simp_all add: IsHashRelevant_def IsHashRelevant_base_def)
  next
    case (Inr v)
    from IsHashRelevant_base_check[OF True c[unfolded Inr]]
    have base: "IsHashRelevant_base w lib hf s = (Inr v, lib1, s1)" .
    show ?thesis
    proof (cases "cls lib")
      case ManualLibrary
      with base True Inr show ?thesis by (cases v) (simp_all add: IsHashRelevant_manual)
    next
      case CMakeLibrary
      show ?thesis
      proof (cases v)
        case False
        from IsHashRelevant_cmake_stale[OF CMakeLibrary base[unfolded False[THEN eq_False[THEN iffD2]]]]
        show ?thesis using True Inr False by simp
      next
        case vt: True
        from CheckBuildHash_verdict[of w lib1 hf s1] obtain lib2 s2
          where cb: "CheckBuildHash w lib1 hf s1
                     = (check_line (Inr (fst (GetBuildHash w lib1))) (ReadLineAt w hf 2 s1), lib2, s2)"
          by blast
        have r2: "ReadLineAt w hf 2 s1 = ReadLineAt w hf 2 s" by (rule ReadLineAt_local) (simp add: f)
        have bh: "fst (GetBuildHash w lib1) = fst (GetBuildHash w lib)"
          by (rule GetBuildHash_fst[OF b])
        have "IsHashRelevant w lib hf s = CheckBuildHash w lib1 hf s1"
          using base vt by (simp add: IsHashRelevant_cmake_build[OF CMakeLibrary])
        with cb r2 bh True Inr vt CMakeLibrary show ?thesis by simp
      qed
    qed
  qed
qed

lemma IsHashRelevant_local:
  "files s' hf = files s hf \<Longrightarrow> fst (IsHashRelevant w lib hf s') = fst (IsHashRelevant w lib hf s)"
  by (simp only: IsHashRelevant_verdict ReadLineAt_local[of s' hf s] path_exists_def)

lemma IsHashRelevant_gone:
  "files s hf = None \<Longrightarrow> \<not> is_anchor hf \<Longrightarrow> fst (IsHashRelevant w lib hf s) = Inr False"
  by (simp add: IsHashRelevant_verdict path_exists_def)

section \<open>The path of the record\<close>

lemma split_on_not_Nil: "split_on c x \<noteq> []"
  by (induction x) (auto split: list.splits)

lemma split_on_lead:
  "c \<notin> set a \<Longrightarrow> split_on c (a @ x) = (a @ hd (split_on c x)) # tl (split_on c x)"
proof (induction a)
  case Nil
  then show ?case using split_on_not_Nil[of c x] by simp
next
  case (Cons y ys)
  then show ?case by auto
qed

lemma Path_hash: "\<exists>w rest. Path (''hash_'' @ x) = (''hash_'' @ w) # rest"
proof -
  have "split_on CHR ''/'' (''hash_'' @ x)
        = (''hash_'' @ hd (split_on CHR ''/'' x)) # tl (split_on CHR ''/'' x)"
    by (rule split_on_lead) simp
  then show ?thesis by (simp add: Path_def path_root_def)
qed

lemma hash_file_not_anchor: "\<not> is_anchor (hash_file_of cfg lib)"
proof -
  from Path_hash[of "lib_name lib @ ''.txt''"] obtain w rest
    where p: "Path (''hash_'' @ lib_name lib @ ''.txt'') = (''hash_'' @ w) # rest" by blast
  define x where "x = ''hash_'' @ w"
  have x: "x \<noteq> ''/''" "x \<noteq> ''//''" by (simp_all add: x_def)
  have "hash_file_of cfg lib =
          pjoin (case CACHE_ROOT cfg of Some c \<Rightarrow> pjoin c (install_dir_base lib)
                 | None \<Rightarrow> install_dir lib) (x # rest)"
    unfolding hash_file_of_def p x_def ..
  then show ?thesis
    using x by (simp add: pjoin_def is_absolute_def is_anchor_def append_eq_Cons_conv)
qed
section \<open>Reading the record\<close>

lemma read_text_errors:
  "read_text w f p = Inl e \<Longrightarrow> (\<exists>m. e = OSError m) \<or> (\<exists>m. e = UnicodeDecodeError m)"
  by (auto simp: read_text_def split: if_splits option.splits node.splits)

lemma IsHashRelevant_base_files:
  "IsHashRelevant_base w lib hf s = (r, lib1, s1) \<Longrightarrow> files s1 = files s"
proof (cases "path_exists (files s) hf")
  case False
  assume "IsHashRelevant_base w lib hf s = (r, lib1, s1)"
  with IsHashRelevant_base_missing[OF False, of w lib] show ?thesis by simp
next
  case True
  assume a: "IsHashRelevant_base w lib hf s = (r, lib1, s1)"
  from CheckGitHash_verdict[of w lib hf s] obtain l2 s2 v
    where c: "CheckGitHash w lib hf s = (v, l2, s2)" and f: "files s2 = files s" by blast
  show ?thesis
  proof (cases v)
    case (Inl e)
    with a c True f show ?thesis by (simp add: IsHashRelevant_base_def)
  next
    case (Inr b)
    from IsHashRelevant_base_check[OF True c[unfolded Inr]] a f show ?thesis by simp
  qed
qed

lemma IsHashRelevant_files:
  assumes a: "IsHashRelevant w lib hf s = (r, lib1, s1)"
  shows "files s1 = files s"
proof (cases "cls lib")
  case ManualLibrary
  from a show ?thesis
    unfolding IsHashRelevant_manual[OF ManualLibrary] by (rule IsHashRelevant_base_files)
next
  case CMakeLibrary
  obtain rb lb sb where b: "IsHashRelevant_base w lib hf s = (rb, lb, sb)"
    by (cases "IsHashRelevant_base w lib hf s")
  note fb = IsHashRelevant_base_files[OF b]
  show ?thesis
  proof (cases rb)
    case (Inl e)
    with a b CMakeLibrary fb show ?thesis by (simp add: IsHashRelevant_def)
  next
    case (Inr v)
    show ?thesis
    proof (cases v)
      case False
      from IsHashRelevant_cmake_stale[OF CMakeLibrary b[unfolded Inr False[THEN eq_False[THEN iffD2]]]] a fb
      show ?thesis by simp
    next
      case True
      from CheckBuildHash_verdict[of w lb hf sb] obtain l2 s2 v2
        where c: "CheckBuildHash w lb hf sb = (v2, l2, s2)" and f: "files s2 = files sb" by blast
      have "IsHashRelevant w lib hf s = CheckBuildHash w lb hf sb"
        using b Inr True by (simp add: IsHashRelevant_cmake_build[OF CMakeLibrary])
      with a c f fb show ?thesis by simp
    qed
  qed
qed

lemma content_identity_Inl:
  "content_identity w lib = Inl e \<Longrightarrow> git_rev_parse w (source_dir lib) = Inl e"
  by (cases "git_rev_parse w (source_dir lib)")
     (auto simp: content_identity_def split: option.splits)

section \<open>The copy loop of a rule\<close>

lemma mkdir_change:
  "mkdir d e st = (r, st1) \<Longrightarrow> files st1 x \<noteq> files st x
   \<Longrightarrow> files st x = None \<and> prefix x d \<and> files st1 x = Some Dir"
  by (auto simp: mkdir_def emit_def split: if_splits)

lemma copy2_files:
  "copy2 w src dst st = (Inr u, st1) \<Longrightarrow> \<not> is_dir (files st) dst
   \<Longrightarrow> \<exists>c. files st src = Some (File c) \<and> \<not> is_anchor src \<and> files st1 = (files st)(dst \<mapsto> File c)"
  by (auto simp: copy2_def Let_def emit_def split: if_splits option.splits node.splits)

lemma copytree_files:
  "copytree w src dst st = (Inr u, st1) \<Longrightarrow>
   files st1 x =
     (if prefix dst x \<and> files st (src @ drop (length dst) x) \<noteq> None
      then files st (src @ drop (length dst) x)
      else if x \<noteq> [] \<and> prefix x dst \<and> files st x = None then Some Dir
      else files st x)"
  by (auto simp: copytree_def Let_def emit_def split: if_splits option.splits)

lemma prefix_path_parent:
  "\<not> is_anchor t \<Longrightarrow> prefix x (path_parent t) \<Longrightarrow> strict_prefix x t"
  by (cases t rule: rev_cases)
     (auto simp: path_parent_def is_anchor_def is_absolute_def strict_prefix_def prefix_def
           split: if_splits list.splits)

lemma pjoin_relative: "\<not> is_absolute b \<Longrightarrow> pjoin a b = a @ b"
  by (simp add: pjoin_def)

lemma under_root: "prefix root p \<Longrightarrow> root @ drop (length root) p = p"
  by (auto simp: prefix_def)

lemma target_source:
  assumes "prefix root p" "prefix root q"
    and "base @ drop (length root) q @ r' = base @ drop (length root) p @ r"
  shows "q @ r' = p @ r"
proof -
  from assms(3) have "root @ drop (length root) q @ r' = root @ drop (length root) p @ r" by simp
  with under_root[OF assms(1)] under_root[OF assms(2)] show ?thesis
    by (metis append.assoc)
qed

lemma comparable: "prefix a x \<Longrightarrow> prefix b x \<Longrightarrow> prefix a b \<or> prefix b a"
  by (metis prefix_same_cases)


lemma installed_preserved:
  assumes "installed f0 f p t"
    and "\<And>r. f0 (p @ r) \<noteq> None \<Longrightarrow> f (t @ r) = f0 (p @ r) \<Longrightarrow> f' (t @ r) = f0 (p @ r)"
  shows "installed f0 f' p t"
proof (cases "is_dir f0 p")
  case True
  with assms show ?thesis by (simp add: installed_def)
next
  case False
  with assms(1) have isf: "is_file f0 p" and eq: "f t = f0 p" by (simp_all add: installed_def)
  from isf have "f0 (p @ []) \<noteq> None" by (auto simp: is_file_def split: option.splits)
  from assms(2)[OF this] eq have "f' t = f0 p" by simp
  with isf False show ?thesis by (simp add: installed_def)
qed

lemma copy_match_step:
  fixes root base :: path
  defines "T \<equiv> \<lambda>p. base @ drop (length root) p"
  assumes base: "base = pjoin (install_dir lib) (Path dst)"
    and sep1: "\<not> prefix root base" and sep2: "\<not> prefix base root"
    and under: "\<forall>p \<in> set M. prefix root p"
    and rel: "\<forall>p \<in> set M. \<not> is_absolute (drop (length root) p)"
    and nest: "\<forall>p \<in> set M. \<forall>q \<in> set M. \<not> is_dir f0 p \<longrightarrow> \<not> strict_prefix p q"
    and q: "q \<in> set M" and D: "D \<subseteq> set M"
    and inv: "copy_inv root base M f0 D (files st)"
    and step: "copy_match w lib root dst q st = (Inr (), st')"
  shows "copy_inv root base M f0 (insert q D) (files st')"
proof -
  from inv have a: "\<And>x. prefix root x \<Longrightarrow> files st x = f0 x"
    and b: "\<And>p. p \<in> D \<Longrightarrow> installed f0 (files st) p (T p)"
    and c: "\<And>p. p \<in> set M \<Longrightarrow> \<not> is_dir f0 p \<Longrightarrow> \<not> is_dir (files st) (T p)"
    by (simp_all add: copy_inv_def T_def)
  have pre: "\<And>p. p \<in> set M \<Longrightarrow> prefix root p" using under by blast
  have out1: "\<not> prefix root x" if "p \<in> set M" "prefix (T p) x" for p x
  proof
    assume "prefix root x"
    moreover have "prefix base x" using that(2) by (auto simp: T_def prefix_def)
    ultimately show False using comparable sep1 sep2 by blast
  qed
  have out2: "\<not> prefix root x" if "p \<in> set M" "prefix x (T p)" for p x
  proof
    assume "prefix root x"
    then have "prefix root (T p)" using that(2) by (rule prefix_order.trans)
    moreover have "prefix base (T p)" by (simp add: T_def)
    ultimately show False using comparable sep1 sep2 by blast
  qed
  have ts: "q' @ r' = p @ r" if "p \<in> set M" "q' \<in> set M" "T q' @ r' = T p @ r" for p q' r r'
    using target_source[OF pre[OF that(1)] pre[OF that(2)], of base r' r] that(3)
    by (simp add: T_def)
  have relq: "relative_to q root = Some (drop (length root) q)"
    using pre[OF q] by (simp add: relative_to_def)
  have tgt: "pjoin (pjoin (install_dir lib) (Path dst)) (drop (length root) q) = T q"
    using rel q by (simp add: T_def base pjoin_relative)
  have dirq: "is_dir (files st) q = is_dir f0 q"
    using a[OF pre[OF q]] by (simp add: is_dir_def)
  show ?thesis
  proof (cases "is_dir f0 q")
    case True
    with step relq tgt dirq have ct: "copytree w q (T q) st = (Inr (), st')"
      by (simp add: copy_match_def)
    note F = copytree_files[OF ct]
    have keep: "files st' x = f0 y" if "files st x = f0 y" "f0 y \<noteq> None"
      "\<And>r'. x = T q @ r' \<Longrightarrow> q @ r' = y" for x y
    proof (cases "prefix (T q) x \<and> files st (q @ drop (length (T q)) x) \<noteq> None")
      case True
      then have x: "x = T q @ drop (length (T q)) x" by (auto simp: prefix_def)
      from that(3)[OF x] have y: "q @ drop (length (T q)) x = y" .
      have "prefix root y" using pre[OF q] y by (auto simp: prefix_def)
      from a[OF this] True y show ?thesis by (simp add: F)
    next
      case False
      with that(1,2) show ?thesis by (auto simp: F)
    qed
    have a': "files st' x = f0 x" if "prefix root x" for x
    proof -
      from out1[OF q] that have "\<not> prefix (T q) x" by blast
      moreover from out2[OF q] that have "\<not> prefix x (T q)" by blast
      ultimately show ?thesis using a[OF that] by (simp add: F)
    qed
    have b': "installed f0 (files st') p (T p)" if "p \<in> insert q D" for p
    proof (cases "p \<in> D")
      case True
      with D have pM: "p \<in> set M" by blast
      show ?thesis
      proof (rule installed_preserved[OF b[OF True]])
        fix r assume nn: "f0 (p @ r) \<noteq> None" and old: "files st (T p @ r) = f0 (p @ r)"
        show "files st' (T p @ r) = f0 (p @ r)"
        proof (rule keep[OF old nn])
          fix r' assume "T p @ r = T q @ r'"
          then have "T q @ r' = T p @ r" by simp
          then show "q @ r' = p @ r" by (rule ts[OF pM q])
        qed
      qed
    next
      case False
      with that have p: "p = q" by simp
      have "files st' (T q @ r) = f0 (q @ r)" if "f0 (q @ r) \<noteq> None" for r
      proof -
        have "prefix root (q @ r)" using pre[OF q] by (auto simp: prefix_def)
        from a[OF this] that show ?thesis by (simp add: F)
      qed
      with True show ?thesis by (simp add: installed_def p)
    qed
    have c': "\<not> is_dir (files st') (T p)" if pM: "p \<in> set M" and nd: "\<not> is_dir f0 p" for p
    proof -
      from c[OF that] have na: "\<not> is_anchor (T p)" and old: "files st (T p) \<noteq> Some Dir"
        by (simp_all add: is_dir_def)
      from nd have f0p: "f0 p \<noteq> Some Dir" by (simp add: is_dir_def)
      have "files st' (T p) \<noteq> Some Dir"
      proof (cases "prefix (T q) (T p) \<and> files st (q @ drop (length (T q)) (T p)) \<noteq> None")
        case True
        then have "T q @ drop (length (T q)) (T p) = T p @ []" by (auto simp: prefix_def)
        from ts[OF pM q this] have "q @ drop (length (T q)) (T p) = p" by simp
        with True a[OF pre[OF pM]] f0p show ?thesis by (simp add: F)
      next
        case False
        have "\<not> prefix (T p) (T q)"
        proof
          assume "prefix (T p) (T q)"
          then obtain r where "T q @ [] = T p @ r" by (auto simp: prefix_def)
          from ts[OF pM q this] have "q = p @ r" by simp
          moreover from nd \<open>is_dir f0 q\<close> have "p \<noteq> q" by blast
          ultimately have "strict_prefix p q" by (auto simp: strict_prefix_def)
          with nest pM q nd show False by blast
        qed
        with False old show ?thesis by (auto simp: F)
      qed
      with na show ?thesis by (simp add: is_dir_def)
    qed
    from a' b' c' show ?thesis by (simp add: copy_inv_def T_def)
  next
    case False
    with step relq tgt dirq obtain st1
      where mk: "mkdir (path_parent (T q)) True st = (Inr (), st1)"
        and cp: "copy2 w q (T q) st1 = (Inr (), st')"
      by (auto simp: copy_match_def Let_def split: prod.splits sum.splits)
    from c[OF q False] have naq: "\<not> is_anchor (T q)" by (simp add: is_dir_def)
    have ch: "files st x = None \<and> strict_prefix x (T q) \<and> files st1 x = Some Dir"
      if "files st1 x \<noteq> files st x" for x
      using mkdir_change[OF mk that] prefix_path_parent[OF naq] by blast
    have a1: "files st1 x = f0 x" if "prefix root x" for x
    proof (cases "files st1 x = files st x")
      case True
      with a[OF that] show ?thesis by simp
    next
      case False
      from ch[OF this] have "prefix x (T q)" by (simp add: strict_prefix_def)
      with out2[OF q] that show ?thesis by blast
    qed
    have c1: "files st1 (T p) \<noteq> Some Dir" if pM: "p \<in> set M" and nd: "\<not> is_dir f0 p" for p
    proof (cases "files st1 (T p) = files st (T p)")
      case True
      with c[OF that] show ?thesis by (simp add: is_dir_def)
    next
      case False
      from ch[OF this] have sp: "strict_prefix (T p) (T q)" by simp
      then obtain r where "T q @ [] = T p @ r" by (auto simp: strict_prefix_def prefix_def)
      from ts[OF pM q this] have "q = p @ r" by simp
      moreover from sp have "r \<noteq> []" using \<open>T q @ [] = T p @ r\<close> by (auto simp: strict_prefix_def)
      ultimately have "strict_prefix p q" by (auto simp: strict_prefix_def)
      with nest pM q nd show ?thesis by blast
    qed
    from c1[OF q False] naq have "\<not> is_dir (files st1) (T q)" by (simp add: is_dir_def)
    from copy2_files[OF cp this] obtain cnt
      where src: "files st1 q = Some (File cnt)" and nanc: "\<not> is_anchor q"
        and F: "files st' = (files st1)(T q \<mapsto> File cnt)"
      by blast
    from a1[OF pre[OF q]] src have f0q: "f0 q = Some (File cnt)" by simp
    have a': "files st' x = f0 x" if "prefix root x" for x
    proof -
      from out1[OF q, of x] that have "x \<noteq> T q" by auto
      with a1[OF that] show ?thesis by (simp add: F)
    qed
    have keep: "files st' (T p @ r) = f0 (p @ r)"
      if pM: "p \<in> set M" and "f0 (p @ r) \<noteq> None" "files st (T p @ r) = f0 (p @ r)" for p r
    proof (cases "T p @ r = T q")
      case True
      then have "T q @ [] = T p @ r" by simp
      from ts[OF pM q this] f0q show ?thesis by (simp add: F True)
    next
      case False
      have "files st1 (T p @ r) = files st (T p @ r)"
        using ch[of "T p @ r"] that(2,3) by auto
      with False that(3) show ?thesis by (simp add: F)
    qed
    have b': "installed f0 (files st') p (T p)" if "p \<in> insert q D" for p
    proof (cases "p \<in> D")
      case True
      with D have pM: "p \<in> set M" by blast
      show ?thesis
        by (rule installed_preserved[OF b[OF True]]) (rule keep[OF pM])
    next
      case nD: False
      with that have p: "p = q" by simp
      from f0q nanc have "is_file f0 q" by (simp add: is_file_def)
      with False f0q show ?thesis by (simp add: installed_def p F)
    qed
    have c': "\<not> is_dir (files st') (T p)" if pM: "p \<in> set M" and nd: "\<not> is_dir f0 p" for p
    proof -
      from c[OF that] have na: "\<not> is_anchor (T p)" by (simp add: is_dir_def)
      with c1[OF that] show ?thesis by (simp add: is_dir_def F)
    qed
    from a' b' c' show ?thesis by (simp add: copy_inv_def T_def)
  qed
qed

lemma copy_loop:
  assumes base: "base = pjoin (install_dir lib) (Path dst)"
    and sep1: "\<not> prefix root base" and sep2: "\<not> prefix base root"
    and under: "\<forall>p \<in> set M. prefix root p"
    and rel: "\<forall>p \<in> set M. \<not> is_absolute (drop (length root) p)"
    and nest: "\<forall>p \<in> set M. \<forall>q \<in> set M. \<not> is_dir f0 p \<longrightarrow> \<not> strict_prefix p q"
  shows "\<forall>x \<in> set xs. prefix root x \<longrightarrow> x \<in> set M \<Longrightarrow> D \<subseteq> set M
         \<Longrightarrow> copy_inv root base M f0 D (files st)
         \<Longrightarrow> for_each (copy_match w lib root dst) xs st = (Inr (), s')
         \<Longrightarrow> copy_inv root base M f0 (D \<union> {x \<in> set xs. prefix root x}) (files s')"
proof (induction xs arbitrary: st D)
  case Nil
  then show ?case by simp
next
  case (Cons q xs)
  obtain r1 st1 where b: "copy_match w lib root dst q st = (r1, st1)"
    by (cases "copy_match w lib root dst q st")
  with Cons.prems(4) have r1: "r1 = Inr ()" and rest: "for_each (copy_match w lib root dst) xs st1 = (Inr (), s')"
    by (cases r1; simp)+
  from Cons.prems(1) have xs: "\<forall>x \<in> set xs. prefix root x \<longrightarrow> x \<in> set M" by simp
  show ?case
  proof (cases "prefix root q")
    case True
    with Cons.prems(1) have q: "q \<in> set M" by simp
    have inv1: "copy_inv root base M f0 (insert q D) (files st1)"
      by (rule copy_match_step[OF base sep1 sep2 under rel nest q Cons.prems(2,3) b[unfolded r1]])
    from q Cons.prems(2) have D1: "insert q D \<subseteq> set M" by simp
    have eq: "insert q D \<union> {x \<in> set xs. prefix root x} = D \<union> {x \<in> set (q # xs). prefix root x}"
      using True by auto
    from Cons.IH[OF xs D1 inv1 rest] show ?thesis unfolding eq .
  next
    case False
    with b have "files st1 = files st"
      by (auto simp add: copy_match_def relative_to_def files_log)
    with Cons.prems(3) have inv1: "copy_inv root base M f0 D (files st1)" by simp
    have eq: "D \<union> {x \<in> set xs. prefix root x} = D \<union> {x \<in> set (q # xs). prefix root x}"
      using False by auto
    from Cons.IH[OF xs Cons.prems(2) inv1 rest] show ?thesis unfolding eq .
  qed
qed


section \<open>The loop over the libraries\<close>

lemma install_libraries_append:
  "install_libraries w cfg (xs @ ys) s =
     (case install_libraries w cfg xs s of
        None \<Rightarrow> None
      | Some (code, s1) \<Rightarrow> if code = 0 then install_libraries w cfg ys s1 else Some (code, s1))"
proof (induction xs arbitrary: s)
  case Nil
  then show ?case by simp
next
  case (Cons x xs)
  show ?case
  proof (cases "path_exists (files s) (source_dir x)")
    case False
    then show ?thesis using Cons.IH by simp
  next
    case True
    show ?thesis
    proof (cases "InstallLibrary w cfg x s")
      case None
      with True show ?thesis by simp
    next
      case (Some res)
      obtain r lib1 s1 where res: "res = (r, lib1, s1)" by (cases res)
      show ?thesis
      proof (cases r)
        case (Inl e)
        with True Some res show ?thesis by simp
      next
        case (Inr u)
        with True Some res show ?thesis using Cons.IH by simp
      qed
    qed
  qed
qed

text \<open>
  Claim C1, as the code has it. When \<open>InstallLibrary\<close> raises for a library
  whose source folder exists, after the libraries before it were processed, \<open>main\<close>
  logs the failure and leaves at once with the exit status 1: the result is the same
  whatever libraries follow in the list, none of them is attempted.
\<close>

theorem main_stops_at_first_failure:
  assumes "install_libraries w cfg before s = Some (0, s0)"
    and "path_exists (files s0) (source_dir lib)"
    and "InstallLibrary w cfg lib s0 = Some (Inl e, lib1, s1)"
  shows "main_install w cfg (before @ lib # rest) s
         = Some (1, log (''Failed to process '' @ lib_name lib @ ''!'' @ [LF]
                         @ ''Error: '' @ str_exn e) Error s1)"
  using assms by (simp add: main_install_def install_libraries_append)

theorem main_stops_at_first_failure_witness:
  "main_install bad_world demo_cfg ([] @ bad_lib # [z_lib [] False]) two_libs_state
   = Some (1, log (''Failed to process '' @ lib_name bad_lib @ ''!'' @ [LF]
                   @ ''Error: '' @ str_exn (CalledProcessError ''cmake failed'')) Error
                (snd (snd (the (InstallLibrary bad_world demo_cfg bad_lib two_libs_state)))))"
proof -
  let ?X = "InstallLibrary bad_world demo_cfg bad_lib two_libs_state"
  have a: "install_libraries bad_world demo_cfg [] two_libs_state = Some (0, two_libs_state)"
    by simp
  have b: "path_exists (files two_libs_state) (source_dir bad_lib)"
    by code_simp
  have "?X \<noteq> None" by code_simp
  moreover have "fst (the ?X) = Inl (CalledProcessError ''cmake failed'')" by code_simp
  ultimately have c: "?X = Some (Inl (CalledProcessError ''cmake failed''), fst (snd (the ?X)), snd (snd (the ?X)))"
    by (cases ?X) (auto simp: prod_eq_iff)
  show ?thesis using main_stops_at_first_failure [OF a b c] .
qed

text \<open>
  Claim C1 as stated fails: with the libraries \<open>bad\<close> and \<open>z\<close> in this order,
  where the configure step of \<open>bad\<close> fails, the run ends with the status 1 right
  after the failure of \<open>bad\<close>; its events are those of \<open>bad\<close> alone, and \<open>z\<close>,
  which installs when it is processed alone, is never attempted.
\<close>

theorem main_continues_counterexample:
  "fst (the (main_install bad_world demo_cfg [bad_lib, z_lib [] False] two_libs_state)) = 1
   \<and> trace (snd (the (main_install bad_world demo_cfg [bad_lib, z_lib [] False] two_libs_state)))
       = [Mkdir [''i'', ''bad''] False,
          Log Info ''Installing [bad]...'',
          Log Info ''Compiling [bad]...'',
          Mkdir [''s'', ''bad'', ''build''] True,
          OpenW [''s'', ''bad'', ''build'', ''.lock''],
          Purge [''s'', ''bad'', ''build''] ''.lock'',
          Subprocess [''cmake'', ''..'', ''-DCMAKE_INSTALL_PREFIX=i/bad'', ''-DCMAKE_PREFIX_PATH=i'']
            (Some [''s'', ''bad'', ''build'']) (Some (CalledProcessError ''cmake failed'')),
          Log Error ''Failed to configure!'',
          Rmtree [''s'', ''bad'', ''build''],
          Log Error (''Failed to process bad!'' @ [LF] @ ''Error: cmake failed'')]
   \<and> fst (the (main_install bad_world demo_cfg [z_lib [] False] two_libs_state)) = 0"
  by code_simp

section \<open>A failing content identity\<close>



section \<open>Failures while reading the record\<close>





section \<open>The record is written after the build\<close>

text \<open>
  Claim C7, as the code has it. When the up-to-date check answers "not up to date",
  the install directory is there, and \<open>BuildAndInstall\<close> raises, then
  \<open>InstallLibrary\<close> raises the same exception in the state that \<open>BuildAndInstall\<close>
  left: the whole run holds no write of the record by the program. Nothing is
  promised about the record file itself, which the build step can remove or change.
  If the record file is then as it was before the run, or is gone, the check of the
  same descriptor in the same environment answers "not up to date" again.
\<close>

theorem record_not_written_when_build_raises:
  assumes stale: "IsHashRelevant w lib (hash_file_of cfg lib) s = (Inr False, lib1, s1)"
    and dir: "(if \<not> path_exists (files s1) (install_dir lib) then mkdir (install_dir lib) False s1
               else (Inr (), s1)) = (Inr (), s2)"
    and build: "BuildAndInstall w cfg lib1 (log (''Installing ['' @ lib_name lib @ '']...'') Info s2)
                = Some (Inl e, s3)"
  shows "InstallLibrary w cfg lib s = Some (Inl e, lib1, s3)
       \<and> grows_by nw s s3
       \<and> (files s3 (hash_file_of cfg lib) = files s (hash_file_of cfg lib)
            \<or> files s3 (hash_file_of cfg lib) = None
          \<longrightarrow> fst (IsHashRelevant w lib (hash_file_of cfg lib) s3) = Inr False)"
proof (intro conjI impI)
  show "InstallLibrary w cfg lib s = Some (Inl e, lib1, s3)"
    unfolding InstallLibrary_build[OF stale dir] build by simp
  have "grows_by nw s s2"
    by (rule grows_by_trans[OF nw_IsHashRelevant[OF stale] nw_ensure_install_dir[OF dir]])
  then have "grows_by nw s (log (''Installing ['' @ lib_name lib @ '']...'') Info s2)"
    by (rule grows_by_trans) (rule nw_log)
  then show "grows_by nw s s3"
    by (rule grows_by_trans) (rule nw_BuildAndInstall[OF build])
  assume "files s3 (hash_file_of cfg lib) = files s (hash_file_of cfg lib)
          \<or> files s3 (hash_file_of cfg lib) = None"
  then show "fst (IsHashRelevant w lib (hash_file_of cfg lib) s3) = Inr False"
  proof
    assume "files s3 (hash_file_of cfg lib) = files s (hash_file_of cfg lib)"
    from IsHashRelevant_local[OF this, of w lib] stale show ?thesis by simp
  next
    assume "files s3 (hash_file_of cfg lib) = None"
    then show ?thesis by (rule IsHashRelevant_gone) (rule hash_file_not_anchor)
  qed
qed

theorem record_not_written_when_build_raises_witness:
  "fst (the (InstallLibrary no_install_world demo_cfg (z_lib [] False) stale_state))
     = Inl (CalledProcessError ''install failed'')
   \<and> grows_by nw stale_state
         (snd (snd (the (InstallLibrary no_install_world demo_cfg (z_lib [] False) stale_state))))
   \<and> fst (IsHashRelevant no_install_world (z_lib [] False) (hash_file_of demo_cfg (z_lib [] False))
           (snd (snd (the (InstallLibrary no_install_world demo_cfg (z_lib [] False) stale_state)))))
     = Inr False"
proof -
  let ?w = no_install_world and ?lib = "z_lib [] False"
  let ?hf = "hash_file_of demo_cfg ?lib"
  let ?X = "IsHashRelevant ?w ?lib ?hf stale_state"
  let ?lib1 = "fst (snd ?X)" and ?s1 = "snd (snd ?X)"
  let ?B = "BuildAndInstall ?w demo_cfg ?lib1 (log (''Installing ['' @ lib_name ?lib @ '']...'') Info ?s1)"
  let ?s3 = "snd (the ?B)"
  have "fst ?X = Inr False" by code_simp
  then have stale: "?X = (Inr False, ?lib1, ?s1)" by (simp add: prod_eq_iff)
  have "path_exists (files ?s1) (install_dir ?lib)" by code_simp
  then have dir: "(if \<not> path_exists (files ?s1) (install_dir ?lib)
                   then mkdir (install_dir ?lib) False ?s1 else (Inr (), ?s1)) = (Inr (), ?s1)"
    by simp
  have "?B \<noteq> None" by code_simp
  moreover have "fst (the ?B) = Inl (CalledProcessError ''install failed'')" by code_simp
  ultimately have build: "?B = Some (Inl (CalledProcessError ''install failed''), ?s3)"
    by (cases ?B) (auto simp: prod_eq_iff)
  have gone: "files ?s3 ?hf = None" by code_simp
  from record_not_written_when_build_raises [OF stale dir build] gone
  show ?thesis by simp
qed

text \<open>
  Claim C7 as stated fails in two points. The record is not always left
  unmodified: with the record inside the install directory (no cache directory is
  configured) and a CMake install step that fails, the install directory has been
  removed and created again after the build, and the stale record went with it. And
  a failed run can be followed by a cache hit: with the record under a cache
  directory, a run with the extra argument \<open>-DNEW\<close> that fails in the install
  step leaves the record of the earlier install with \<open>-DOLD\<close> as it was, while
  the installed archive is gone; the next run with \<open>-DOLD\<close> finds the library up
  to date and installs nothing into the emptied directory.
\<close>

theorem record_deleted_counterexample:
  "hash_file_of demo_cfg (z_lib [] False) = [''i'', ''z'', ''hash_z.txt'']
   \<and> files stale_state [''i'', ''z'', ''hash_z.txt''] = Some (File (''old'' @ [LF]))
   \<and> fst (the (InstallLibrary no_install_world demo_cfg (z_lib [] False) stale_state))
       = Inl (CalledProcessError ''install failed'')
   \<and> trace (snd (snd (the (InstallLibrary no_install_world demo_cfg (z_lib [] False) stale_state))))
       = [Subprocess [''git'', ''-C'', ''s/z'', ''rev-parse'', ''HEAD''] None None,
          Log Info ''Installing [z]...'',
          Log Info ''Compiling [z]...'',
          Mkdir [''s'', ''z'', ''build''] True,
          OpenW [''s'', ''z'', ''build'', ''.lock''],
          Purge [''s'', ''z'', ''build''] ''.lock'',
          Subprocess [''cmake'', ''..'', ''-DCMAKE_INSTALL_PREFIX=i/z'', ''-DCMAKE_PREFIX_PATH=i'']
            (Some [''s'', ''z'', ''build'']) None,
          Subprocess [''cmake'', ''-DCMAKE_BUILD_TYPE=Release'', ''..'']
            (Some [''s'', ''z'', ''build'']) None,
          Subprocess [''cmake'', ''--build'', ''.'', ''--parallel'']
            (Some [''s'', ''z'', ''build'']) None,
          Log Success ''[z] successfully built.'',
          Rmtree [''i'', ''z''],
          Mkdir [''i'', ''z''] False,
          Subprocess [''cmake'', ''--install'', ''.'']
            (Some [''s'', ''z'', ''build'']) (Some (CalledProcessError ''install failed'')),
          Log Error ''Failed to install!'',
          Rmtree [''s'', ''z'', ''build'']]
   \<and> files (snd (snd (the (InstallLibrary no_install_world demo_cfg (z_lib [] False) stale_state))))
         [''i'', ''z'', ''hash_z.txt''] = None
   \<and> hash_file_of cache_cfg (cached_z [''-DNEW'']) = [''c'', ''z'', ''hash_z.txt'']
   \<and> hash_file_of cache_cfg (cached_z [''-DOLD'']) = [''c'', ''z'', ''hash_z.txt'']
   \<and> fst (the (InstallLibrary no_install_world cache_cfg (cached_z [''-DNEW'']) cached_state))
       = Inl (CalledProcessError ''install failed'')
   \<and> files (snd (snd (the (InstallLibrary no_install_world cache_cfg (cached_z [''-DNEW'']) cached_state))))
         [''c'', ''z'', ''hash_z.txt'']
       = files cached_state [''c'', ''z'', ''hash_z.txt'']
   \<and> files cached_state [''i'', ''z'', ''libz.a''] = Some (File ''!<arch>'')
   \<and> files (snd (snd (the (InstallLibrary no_install_world cache_cfg (cached_z [''-DNEW'']) cached_state))))
         [''i'', ''z'', ''libz.a''] = None
   \<and> fst (IsHashRelevant no_install_world (cached_z [''-DOLD'']) [''c'', ''z'', ''hash_z.txt'']
            (snd (snd (the (InstallLibrary no_install_world cache_cfg (cached_z [''-DNEW'']) cached_state)))))
       = Inr True
   \<and> new_events
        (snd (snd (the (InstallLibrary no_install_world cache_cfg (cached_z [''-DNEW'']) cached_state))))
        (snd (snd (the (InstallLibrary no_install_world cache_cfg (cached_z [''-DOLD''])
           (snd (snd (the (InstallLibrary no_install_world cache_cfg (cached_z [''-DNEW'']) cached_state))))))))
       = [Subprocess [''git'', ''-C'', ''s/z'', ''rev-parse'', ''HEAD''] None None,
          Log Info ''[z] is up to date.'']"
  by code_simp
section \<open>Pattern splitting and install targets\<close>





section \<open>The build identity\<close>

text \<open>
  Joined strings of argument lists without \<open>|\<close>: only the empty list and the
  list of one empty argument are joined to the same string.
\<close>

lemma join_Nil: "join [c] ys = [] \<Longrightarrow> ys = [] \<or> ys = [[]]"
proof (cases ys)
  case Nil
  then show ?thesis by simp
next
  case (Cons y zs)
  assume a: "join [c] ys = []"
  show ?thesis
  proof (cases zs)
    case Nil
    with Cons a show ?thesis by simp
  next
    case (Cons z zs')
    with \<open>ys = y # zs\<close> a show ?thesis by simp
  qed
qed

lemma join_inject_bar:
  assumes "\<forall>x \<in> set xs. c \<notin> set x" "\<forall>y \<in> set ys. c \<notin> set y"
    and eq: "join [c] xs = join [c] ys" and diff: "xs \<noteq> ys"
  shows "(xs = [] \<and> ys = [[]]) \<or> (xs = [[]] \<and> ys = [])"
proof (cases "xs = []")
  case True
  with eq have "join [c] ys = []" by simp
  from join_Nil[OF this] True diff show ?thesis by auto
next
  case False
  show ?thesis
  proof (cases "ys = []")
    case True
    with eq have "join [c] xs = []" by simp
    from join_Nil[OF this] True diff show ?thesis by auto
  next
    case ne: False
    from join_inject[OF False ne assms(1,2) eq] diff show ?thesis by simp
  qed
qed

text \<open>
  Claim C10, as the code has it. The build identity is the hexadecimal MD5 digest of
  the extra arguments joined by \<open>|\<close>. For two different argument lists whose
  arguments contain no \<open>|\<close>, other than the empty list and the list of one empty
  argument, the joined strings differ (a reordering into a different sequence is
  such a pair, and so is adding a first argument to an empty list); and when the
  digests of the two joined strings differ, a record that holds the current content
  identity and the build identity of the other list is reported as not up to date.
\<close>

theorem build_identity_distinguishes:
  assumes cm: "cls lib = CMakeLibrary"
    and fresh: "git_hash lib = None" "build_hash lib = None"
    and xs: "extra_args lib = xs" "\<forall>a \<in> set xs. CHR ''|'' \<notin> set a"
    and ys: "\<forall>a \<in> set ys. CHR ''|'' \<notin> set a"
    and diff: "xs \<noteq> ys"
    and empties: "\<not> (xs = [] \<and> ys = [[]])" "\<not> (xs = [[]] \<and> ys = [])"
    and git: "git_rev_parse w (source_dir lib) = Inr out"
    and line1: "ReadLineAt w hash_file 1 s = Inr (Some (strip out))"
    and line2: "ReadLineAt w hash_file 2 s = Inr (Some (hexdigest (md5 w (join ''|'' ys))))"
    and nocoll: "join ''|'' xs \<noteq> join ''|'' ys \<Longrightarrow>
                 hexdigest (md5 w (join ''|'' xs)) \<noteq> hexdigest (md5 w (join ''|'' ys))"
  shows "join ''|'' xs \<noteq> join ''|'' ys \<and> fst (IsHashRelevant w lib hash_file s) = Inr False"
proof
  show j: "join ''|'' xs \<noteq> join ''|'' ys"
    using join_inject_bar[of xs "CHR ''|''" ys] xs(2) ys diff empties by blast
  from nocoll[OF j] have h: "hexdigest (md5 w (join ''|'' xs)) \<noteq> hexdigest (md5 w (join ''|'' ys))" .
  let ?lib1 = "lib\<lparr>git_hash := Some (strip out)\<rparr>"
  let ?s1 = "emit (Subprocess [''git'', ''-C'', str_path (source_dir lib), ''rev-parse'', ''HEAD''] None None) s"
  have ex: "path_exists (files s) hash_file" using ReadLineAt_exists[OF line1] .
  have base: "IsHashRelevant_base w lib hash_file s = (Inr True, ?lib1, ?s1)"
    using IsHashRelevant_base_read[OF ex GetGitHash_fresh[OF fresh(1) git], of "Some (strip out)"] line1
    by simp
  have bh: "GetBuildHash w ?lib1 = (hexdigest (md5 w (join ''|'' xs)),
              ?lib1\<lparr>build_hash := Some (hexdigest (md5 w (join ''|'' xs)))\<rparr>)"
    using GetBuildHash_fresh[of ?lib1 w] fresh(2) xs(1) by simp
  have "CheckBuildHash w ?lib1 hash_file ?s1
        = (Inr (Some (hexdigest (md5 w (join ''|'' xs))) = Some (hexdigest (md5 w (join ''|'' ys)))),
           ?lib1\<lparr>build_hash := Some (hexdigest (md5 w (join ''|'' xs)))\<rparr>, ?s1)"
    by (rule CheckBuildHash_read[OF bh]) (simp add: line2)
  with h cm base show "fst (IsHashRelevant w lib hash_file s) = Inr False"
    by (simp add: IsHashRelevant_def)
qed

theorem build_identity_distinguishes_witness:
  "join ''|'' [''-DA'', ''-DB''] \<noteq> join ''|'' [''-DB'', ''-DA'']
   \<and> fst (IsHashRelevant demo_world (z_lib [''-DA'', ''-DB''] False) (hash_file_of demo_cfg (z_lib [''-DA'', ''-DB''] False))
           (z_installed [''-DB'', ''-DA''])) = Inr False"
proof -
  let ?lib = "z_lib [''-DA'', ''-DB''] False"
  let ?hf = "hash_file_of demo_cfg ?lib"
  let ?s = "z_installed [''-DB'', ''-DA'']"
  have cm: "cls ?lib = CMakeLibrary" by code_simp
  have f1: "git_hash ?lib = None" by code_simp
  have f2: "build_hash ?lib = None" by code_simp
  have xs: "extra_args ?lib = [''-DA'', ''-DB'']" by code_simp
  have nb1: "\<forall>a \<in> set [''-DA'', ''-DB'']. CHR ''|'' \<notin> set a" by simp
  have nb2: "\<forall>a \<in> set [''-DB'', ''-DA'']. CHR ''|'' \<notin> set a" by simp
  have git: "git_rev_parse demo_world (source_dir ?lib) = Inr (''0a1b2c'' @ [LF])"
    by (simp add: demo_world_def)
  have l1: "ReadLineAt demo_world ?hf 1 ?s = Inr (Some (strip (''0a1b2c'' @ [LF])))" by code_simp
  have l2: "ReadLineAt demo_world ?hf 2 ?s = Inr (Some (hexdigest (md5 demo_world (join ''|'' [''-DB'', ''-DA'']))))"
    by code_simp
  have nc: "hexdigest (md5 demo_world (join ''|'' [''-DA'', ''-DB''])) \<noteq> hexdigest (md5 demo_world (join ''|'' [''-DB'', ''-DA'']))"
    by code_simp
  show ?thesis
    using build_identity_distinguishes [OF cm f1 f2 xs nb1 nb2 _ _ _ git l1 l2 nc] by simp
qed

text \<open>
  Claim C10 as stated fails: the lists \<open>["a", "a|a"]\<close> and \<open>["a|a", "a"]\<close>
  are reorderings of each other and different sequences, yet both are joined to
  \<open>"a|a|a"\<close> and have the same build identity. After an install with the first
  list, a run with the second one is a cache hit and rebuilds nothing. The empty
  list and the list of one empty argument are both joined to the empty string.
\<close>

theorem build_identity_reorder_counterexample:
  "[''a'', ''a|a''] \<noteq> [''a|a'', ''a'']
   \<and> fst (GetBuildHash demo_world (z_lib [] False))
       = fst (GetBuildHash demo_world (z_lib [[]] False))
   \<and> fst (the (InstallLibrary demo_world demo_cfg (z_lib [''a'', ''a|a''] False) z_state)) = Inr ()
   \<and> fst (GetBuildHash demo_world (z_lib [''a'', ''a|a''] False))
       = fst (GetBuildHash demo_world (z_lib [''a|a'', ''a''] False))
   \<and> fst (IsHashRelevant demo_world (z_lib [''a|a'', ''a''] False)
             (hash_file_of demo_cfg (z_lib [''a|a'', ''a''] False)) (z_installed [''a'', ''a|a'']))
       = Inr True
   \<and> new_events (z_installed [''a'', ''a|a''])
        (snd (snd (the (InstallLibrary demo_world demo_cfg (z_lib [''a|a'', ''a''] False)
                          (z_installed [''a'', ''a|a''])))))
       = [Subprocess [''git'', ''-C'', ''s/z'', ''rev-parse'', ''HEAD''] None None,
          Log Info ''[z] is up to date.'']"
  by code_simp

end
